theory Spec2Isabelle
  imports Complex_Main "HOL-Library.Sublist"
begin

section \<open>Relationship graph and deal-health engine: a shallow embedding\<close>

text \<open>
  The theory embeds \<^verbatim>\<open>GraphService\<close> (CDN/js/calendar.js),
  \<^verbatim>\<open>SalesOrchestratorService\<close> (CDN/js/meeting-service.js) and the part of
  \<^verbatim>\<open>LinkedInService\<close> (CDN/api/telemetry-endpoints.md) that the graph service calls.

  Conventions of the embedding:
  \<^item> a JavaScript number is the \<open>real\<close> it denotes (or an \<open>int\<close>/\<open>nat\<close> where the source
    only ever counts). The strength of an edge is an IEEE double throughout: a decimal
    literal that is not a double is rounded to the nearest one (\<open>fl\<close>), and so are the
    sum and the product of \<^verbatim>\<open>updateRelationshipStrength\<close>. The scores of the scorer and
    of the orchestrator, which are rounded to an integer before anything reads them, are
    computed over the exact reals;
  \<^item> a date is its time value in milliseconds (\<open>int\<close>), \<open>None\<close> where the field is
    missing; the clock \<^verbatim>\<open>new Date()\<close> is the parameter \<open>now\<close>;
  \<^item> the mutable service object is the record \<open>store\<close>, passed in and returned;
  \<^item> strings are \<open>string\<close>; \<^verbatim>\<open>toLowerCase\<close> is modelled on the ASCII letters.
\<close>

subsection \<open>Strings\<close>

definition toLowerChar :: "char \<Rightarrow> char" where
  "toLowerChar c =
     (case map_of (zip ''ABCDEFGHIJKLMNOPQRSTUVWXYZ'' ''abcdefghijklmnopqrstuvwxyz'') c of
        Some d \<Rightarrow> d
      | None \<Rightarrow> c)"

definition toLowerCase :: "string \<Rightarrow> string" where
  "toLowerCase s = map toLowerChar s"

text \<open>\<^verbatim>\<open>s.includes(p)\<close>: \<open>p\<close> occurs in \<open>s\<close> as a contiguous substring.\<close>

fun includes_str :: "string \<Rightarrow> string \<Rightarrow> bool" where
  "includes_str [] p = (p = [])"
| "includes_str (c # cs) p = (prefix p (c # cs) \<or> includes_str cs p)"

subsection \<open>Numbers\<close>

text \<open>\<^verbatim>\<open>Math.round\<close> rounds to the nearest integer, halves upwards.\<close>

definition Math_round :: "real \<Rightarrow> int" where
  "Math_round x = \<lfloor>x + 1 / 2\<rfloor>"

definition msPerDay :: int where
  "msPerDay = 1000 * 60 * 60 * 24"

subsection \<open>IEEE doubles\<close>

text \<open>
  The arithmetic of \<^verbatim>\<open>updateRelationshipStrength\<close> is inexact in JavaScript: a decimal
  literal denotes the nearest double and \<^verbatim>\<open>+\<close> and \<^verbatim>\<open>*\<close> round their result. A finite
  double is a real \<open>m * 2^e\<close> with \<open>\<bar>m\<bar> < 2^53\<close> and \<open>e \<ge> -1074\<close>; \<open>fl x\<close> is the double
  nearest to \<open>x\<close>, a tie going to the even significand (round to nearest, ties to even,
  the only rounding JavaScript has). Overflow to \<^verbatim>\<open>Infinity\<close>, \<^verbatim>\<open>NaN\<close> and the sign of zero
  are not modelled.
\<close>

text \<open>The number of binary digits of a natural number.\<close>

fun bitlen_nat :: "nat \<Rightarrow> nat" where
  "bitlen_nat n = (if n = 0 then 0 else Suc (bitlen_nat (n div 2)))"

declare bitlen_nat.simps [simp del]

text \<open>\<open>binade x\<close> is the exponent \<open>k\<close> with \<open>2^k \<le> \<bar>x\<bar> < 2^(k+1)\<close>, for \<open>x \<noteq> 0\<close>.\<close>

definition binade :: "real \<Rightarrow> int" where
  "binade x =
     (if \<bar>x\<bar> \<ge> 1 then int (bitlen_nat (nat \<lfloor>\<bar>x\<bar>\<rfloor>)) - 1
      else - int (bitlen_nat (nat \<lceil>1 / \<bar>x\<bar>\<rceil> - 1)))"

definition twoTo :: "int \<Rightarrow> real" where
  "twoTo e = (if e \<ge> 0 then 2 ^ nat e else 1 / 2 ^ nat (- e))"

definition roundHalfEven :: "real \<Rightarrow> int" where
  "roundHalfEven y =
     (let f = \<lfloor>y\<rfloor> in
      if y - real_of_int f < 1 / 2 then f
      else if y - real_of_int f > 1 / 2 then f + 1
      else if even f then f else f + 1)"

definition fl :: "real \<Rightarrow> real" where
  "fl x =
     (if x = 0 then 0
      else
        let e = max (binade x - 52) (- 1074);
            m = roundHalfEven (\<bar>x\<bar> / twoTo e)
        in sgn x * real_of_int m * twoTo e)"

text \<open>Addition and multiplication of doubles.\<close>

definition dadd :: "real \<Rightarrow> real \<Rightarrow> real" where
  "dadd x y = fl (x + y)"

definition dmul :: "real \<Rightarrow> real \<Rightarrow> real" where
  "dmul x y = fl (x * y)"

subsection \<open>Entity store\<close>

record node =
  node_id :: string
  node_type :: string
  title :: "string option"
  influenceScore :: int
  interactionCount :: nat
  lastInteraction :: "int option"
  linkedin_verified :: bool

record edge_metadata =
  em_lastInteraction :: "int option"
  em_interactionCount :: nat

record edge =
  edge_id :: string
  source :: string
  target :: string
  edge_type :: string
  strength :: real
  confirmed :: bool
  metadata :: "edge_metadata option"

record interaction =
  int_id :: string
  contactId :: string
  int_type :: string
  date :: "int option"
  duration :: "real option"
  dealId :: "string option"
  completed :: bool

record store =
  nodes :: "node list"
  edges :: "edge list"
  interactions :: "interaction list"

subsection \<open>Influence scorer\<close>

text \<open>
  The table \<^verbatim>\<open>roleScores\<close> of \<^verbatim>\<open>calculateContactInfluence\<close>, in insertion order (the
  order \<^verbatim>\<open>Object.entries\<close> yields). The loop adds the points of the first key that the
  lowercased title includes and stops; \<^verbatim>\<open>'other'\<close> is one of the keys it tests.
\<close>

definition roleScores :: "(string \<times> real) list" where
  "roleScores =
     [(''ceo'', 30), (''cto'', 25), (''cfo'', 25), (''vp'', 20),
      (''director'', 15), (''manager'', 10), (''other'', 5)]"

definition roleScore :: "string \<Rightarrow> real" where
  "roleScore ttl =
     (case find (\<lambda>(role, points). includes_str ttl role) roleScores of
        Some (role, points) \<Rightarrow> points
      | None \<Rightarrow> 0)"

text \<open>An edge that touches the contact and is not structural.\<close>

definition touches :: "string \<Rightarrow> edge \<Rightarrow> bool" where
  "touches cid e \<longleftrightarrow>
     (source e = cid \<or> target e = cid) \<and>
     edge_type e \<noteq> ''works_at'' \<and> edge_type e \<noteq> ''belongs_to''"

definition dealEdges :: "store \<Rightarrow> string \<Rightarrow> edge list" where
  "dealEdges s cid =
     filter (\<lambda>e. source e = cid \<and> includes_str (edge_type e) ''deal'') (edges s)"

definition strongRelationships :: "store \<Rightarrow> string \<Rightarrow> edge list" where
  "strongRelationships s cid =
     filter (\<lambda>e. touches cid e \<and> strength e \<ge> fl 0.7) (edges s)"

definition recentInteractions :: "int \<Rightarrow> store \<Rightarrow> string \<Rightarrow> interaction list" where
  "recentInteractions now s cid =
     filter (\<lambda>i. case date i of
                   None \<Rightarrow> False
                 | Some d \<Rightarrow> contactId i = cid \<and> real_of_int (now - d) / real_of_int msPerDay \<le> 90)
       (interactions s)"

definition connections :: "store \<Rightarrow> string \<Rightarrow> nat" where
  "connections s cid = length (filter (touches cid) (edges s))"

definition calculateContactInfluence :: "int \<Rightarrow> store \<Rightarrow> string \<Rightarrow> int" where
  "calculateContactInfluence now s cid =
     (case find (\<lambda>n. node_id n = cid) (nodes s) of
        None \<Rightarrow> 0
      | Some contact \<Rightarrow>
          if node_type contact \<noteq> ''contact'' then 0
          else
            let ttl = toLowerCase (case title contact of None \<Rightarrow> [] | Some t \<Rightarrow> t);
                score = roleScore ttl;
                score = score + min (real (length (dealEdges s cid)) * 10) 20;
                score = score + min (real (length (strongRelationships s cid)) * 3) 20;
                score = score + min (real (length (recentInteractions now s cid)) * 2) 15;
                score = score + min (real (connections s cid) * 1.5) 15
            in min (Math_round score) 100)"

text \<open>
  \<^verbatim>\<open>calculateInfluenceScores\<close> assigns each contact node its score. The source mutates
  the nodes while it iterates; the score reads only ids, types and titles of nodes, which
  the loop does not change, so every score is computed on the store as it was.
\<close>

definition calculateInfluenceScores :: "int \<Rightarrow> store \<Rightarrow> store" where
  "calculateInfluenceScores now s =
     s\<lparr>nodes :=
         map (\<lambda>n. if node_type n = ''contact''
                   then n\<lparr>influenceScore := calculateContactInfluence now s (node_id n)\<rparr>
                   else n)
           (nodes s)\<rparr>"

subsection \<open>Relationship strength updater\<close>

text \<open>
  The \<^verbatim>\<open>metadata\<close> argument of \<^verbatim>\<open>trackInteraction\<close>: a field is \<open>None\<close> when the caller
  left it out. \<^verbatim>\<open>metadata.completed !== false\<close> holds unless the field is \<open>Some False\<close>.
\<close>

record tracking_metadata =
  md_duration :: "real option"
  md_dealId :: "string option"
  md_completed :: "bool option"

definition notFalse :: "bool option \<Rightarrow> bool" where
  "notFalse b \<longleftrightarrow> b \<noteq> Some False"

text \<open>
  The increment that \<^verbatim>\<open>updateRelationshipStrength\<close> computes for each edge, in doubles:
  the literals are the doubles nearest to them, the sum and the product are rounded.
\<close>

definition increase :: "string \<Rightarrow> tracking_metadata \<Rightarrow> real" where
  "increase interactionType md =
     (let callDuration = (case md_duration md of None \<Rightarrow> 0 | Some d \<Rightarrow> d);
          inc = (if interactionType = ''call''
                   then dadd (fl 0.02) (if callDuration > 30 then fl 0.03 else 0)
                 else if interactionType = ''meeting'' then fl 0.04
                 else if interactionType = ''email'' then fl 0.01
                 else fl 0.005)
      in if notFalse (md_completed md) then dmul inc (fl 1.2) else inc)"

definition touchMetadata :: "int \<Rightarrow> edge_metadata option \<Rightarrow> edge_metadata option" where
  "touchMetadata now m =
     (let old = (case m of
                   None \<Rightarrow> \<lparr>em_lastInteraction = None, em_interactionCount = 0\<rparr>
                 | Some x \<Rightarrow> x)
      in Some (old\<lparr>em_lastInteraction := Some now,
                    em_interactionCount := em_interactionCount old + 1\<rparr>))"

text \<open>\<^verbatim>\<open>edge.strength = Math.min(edge.strength + increase, 1.0)\<close>, the sum in doubles.\<close>

definition strengthen :: "int \<Rightarrow> string \<Rightarrow> tracking_metadata \<Rightarrow> edge \<Rightarrow> edge" where
  "strengthen now interactionType md e =
     e\<lparr>strength := min (dadd (strength e) (increase interactionType md)) 1.0,
       metadata := touchMetadata now (metadata e)\<rparr>"

text \<open>
  \<^verbatim>\<open>contactEdges.forEach\<close> mutates the edges that pass the filter, in place: in the
  edge list those edges are replaced and every other edge stays as it is.
\<close>

definition updateRelationshipStrength ::
    "int \<Rightarrow> store \<Rightarrow> string \<Rightarrow> string \<Rightarrow> tracking_metadata \<Rightarrow> store" where
  "updateRelationshipStrength now s cid interactionType md =
     s\<lparr>edges :=
         map (\<lambda>e. if touches cid e then strengthen now interactionType md e else e)
           (edges s)\<rparr>"

text \<open>Decimal digits of a number, for the id \<^verbatim>\<open>`int_${Date.now()}`\<close>.\<close>

fun decimal :: "nat \<Rightarrow> string" where
  "decimal n =
     (if n < 10 then [''0123456789'' ! n]
      else decimal (n div 10) @ [''0123456789'' ! (n mod 10)])"

fun update_first :: "('a \<Rightarrow> bool) \<Rightarrow> ('a \<Rightarrow> 'a) \<Rightarrow> 'a list \<Rightarrow> 'a list" where
  "update_first P f [] = []"
| "update_first P f (x # xs) = (if P x then f x # xs else x # update_first P f xs)"

text \<open>
  \<^verbatim>\<open>trackInteraction\<close>: append the interaction, count it on the first contact node with
  that id, strengthen the contact's edges, recompute every score. The call to the CRM
  that follows is fire-and-forget and does not touch the store. The result is the
  interaction and the store after the call. The free texts \<^verbatim>\<open>subject\<close> and \<^verbatim>\<open>notes\<close>
  of an interaction are copied from the metadata and read by nothing here; the records
  leave them out.
\<close>

definition trackInteraction ::
    "int \<Rightarrow> store \<Rightarrow> string \<Rightarrow> string \<Rightarrow> tracking_metadata \<Rightarrow> interaction \<times> store" where
  "trackInteraction now s cid interactionType md =
     (let interaction =
            \<lparr>int_id = ''int_'' @ decimal (nat now), contactId = cid,
             int_type = interactionType, date = Some now, duration = md_duration md,
             dealId = md_dealId md, completed = notFalse (md_completed md)\<rparr>;
          s1 = s\<lparr>interactions := interactions s @ [interaction]\<rparr>;
          s2 = s1\<lparr>nodes :=
                   update_first (\<lambda>n. node_id n = cid \<and> node_type n = ''contact'')
                     (\<lambda>n. n\<lparr>interactionCount := interactionCount n + 1,
                              lastInteraction := Some now\<rparr>)
                     (nodes s1)\<rparr>;
          s3 = updateRelationshipStrength now s2 cid interactionType md;
          s4 = calculateInfluenceScores now s3
      in (interaction, s4))"

subsection \<open>Example stores\<close>

definition engineer :: node where
  "engineer =
     \<lparr>node_id = ''c1'', node_type = ''contact'', title = Some ''Software Engineer'',
      influenceScore = 0, interactionCount = 0, lastInteraction = None,
      linkedin_verified = False\<rparr>"

definition alice :: node where
  "alice =
     \<lparr>node_id = ''alice'', node_type = ''contact'', title = Some ''CTO'',
      influenceScore = 0, interactionCount = 0, lastInteraction = None,
      linkedin_verified = False\<rparr>"

definition bob :: node where
  "bob =
     \<lparr>node_id = ''bob'', node_type = ''contact'', title = Some ''Manager'',
      influenceScore = 0, interactionCount = 0, lastInteraction = None,
      linkedin_verified = False\<rparr>"

definition acme :: node where
  "acme =
     \<lparr>node_id = ''acme'', node_type = ''account'', title = None,
      influenceScore = 0, interactionCount = 0, lastInteraction = None,
      linkedin_verified = False\<rparr>"

definition bob_reports_to_alice :: edge where
  "bob_reports_to_alice =
     \<lparr>edge_id = ''edge_bob_reports_alice'', source = ''bob'', target = ''alice'',
      edge_type = ''reports_to'', strength = 0.5, confirmed = True, metadata = None\<rparr>"

definition bob_knows_alice :: edge where
  "bob_knows_alice =
     \<lparr>edge_id = ''edge_bob_knows_alice'', source = ''bob'', target = ''alice'',
      edge_type = ''knows'', strength = fl 0.652, confirmed = True, metadata = None\<rparr>"

definition completedMeeting :: tracking_metadata where
  "completedMeeting = \<lparr>md_duration = None, md_dealId = None, md_completed = Some True\<rparr>"

subsection \<open>Deal health orchestrator: stalling\<close>

text \<open>
  A deal of the pipeline. \<open>stage\<close> is \<open>None\<close> when the field is missing;
  \<open>stageEntryDate\<close> is \<^verbatim>\<open>deal.metadata?.stageEntryDate\<close> and \<open>lastActivity\<close> is
  \<^verbatim>\<open>deal.lastActivity\<close>, each the time value of the date or \<open>None\<close> when it is absent.
\<close>

record deal =
  deal_id :: string
  deal_name :: string
  stage :: "string option"
  deal_value :: real
  probability :: real
  lastActivity :: "int option"
  stageEntryDate :: "int option"
  deal_contacts :: "string list"

definition avgStageDurations :: "(string \<times> real) list" where
  "avgStageDurations =
     [(''new'', 3), (''contacted'', 5), (''qualified'', 7), (''negotiation'', 14),
      (''proposal'', 10), (''closed'', 0)]"

text \<open>\<^verbatim>\<open>!deal.stage\<close>: the stage is missing or the empty string.\<close>

definition noStage :: "string option \<Rightarrow> bool" where
  "noStage st \<longleftrightarrow> st = None \<or> st = Some []"

definition calculateDaysInStage :: "int \<Rightarrow> deal \<Rightarrow> int" where
  "calculateDaysInStage now d =
     (if noStage (stage d) \<or> stage d = Some ''closed'' then 0
      else
        let stageEntry = (case stageEntryDate d of
                            Some t \<Rightarrow> t
                          | None \<Rightarrow> (case lastActivity d of Some t \<Rightarrow> t | None \<Rightarrow> now));
            diffMs = now - stageEntry
        in \<lfloor>real_of_int diffMs / real_of_int msPerDay\<rfloor>)"

record stalling =
  isStalling :: bool
  daysInStage :: int
  threshold :: real
  stalling_stage :: "string option"

text \<open>\<^verbatim>\<open>this.avgStageDurations[deal.stage] || 7\<close>: 7 for a stage that is not in the table and
  for the entry 0 of \<^verbatim>\<open>'closed'\<close>.\<close>

definition avgDuration :: "string option \<Rightarrow> real" where
  "avgDuration st =
     (case st of
        None \<Rightarrow> 7
      | Some name \<Rightarrow>
          (case map_of avgStageDurations name of
             None \<Rightarrow> 7
           | Some a \<Rightarrow> if a = 0 then 7 else a))"

definition detectStalling :: "int \<Rightarrow> deal \<Rightarrow> stalling" where
  "detectStalling now d =
     (let days = calculateDaysInStage now d;
          avg = avgDuration (stage d);
          thr = avg * 1.5
      in \<lparr>isStalling = real_of_int days > thr, daysInStage = days, threshold = thr,
          stalling_stage = stage d\<rparr>)"

definition qualifiedDeal :: deal where
  "qualifiedDeal =
     \<lparr>deal_id = ''deal_1'', deal_name = ''Q4 Enterprise License'', stage = Some ''qualified'',
      deal_value = 50000, probability = 60, lastActivity = Some (100 * msPerDay),
      stageEntryDate = None, deal_contacts = []\<rparr>"

subsection \<open>Graph query engine: filtered subgraph\<close>

text \<open>
  The \<^verbatim>\<open>filter\<close> argument of \<^verbatim>\<open>getGraphData\<close>. A field takes part only when it is
  truthy: an id that is present and not the empty string, a threshold that is present
  and not 0.
\<close>

record graph_filter =
  filter_accountId :: "string option"
  filter_dealId :: "string option"
  filter_minInfluence :: "real option"

definition applyAccountFilter :: "string \<Rightarrow> node list \<times> edge list \<Rightarrow> node list \<times> edge list" where
  "applyAccountFilter accId g =
     (case g of (ns, es) \<Rightarrow>
        let accountContacts =
              map source (filter (\<lambda>e. target e = accId \<and> edge_type e = ''works_at'') es)
        in (filter (\<lambda>n. node_id n \<in> set accountContacts \<or> node_id n = accId) ns,
            filter (\<lambda>e. source e \<in> set accountContacts \<or> target e \<in> set accountContacts \<or>
                        source e = accId \<or> target e = accId) es))"

definition applyDealFilter :: "string \<Rightarrow> node list \<times> edge list \<Rightarrow> node list \<times> edge list" where
  "applyDealFilter dlId g =
     (case g of (ns, es) \<Rightarrow>
        let dealContacts =
              map source
                (filter (\<lambda>e. target e = dlId \<and> includes_str (edge_type e) ''deal'') es)
        in (filter (\<lambda>n. node_id n \<in> set dealContacts \<or> node_id n = dlId) ns,
            filter (\<lambda>e. source e \<in> set dealContacts \<or> target e \<in> set dealContacts \<or>
                        source e = dlId \<or> target e = dlId) es))"

definition applyMinInfluence :: "real \<Rightarrow> node list \<times> edge list \<Rightarrow> node list \<times> edge list" where
  "applyMinInfluence m g =
     (case g of (ns, es) \<Rightarrow>
        let ns' = filter (\<lambda>n. node_type n \<noteq> ''contact'' \<or> real_of_int (influenceScore n) \<ge> m) ns;
            nodeIds = set (map node_id ns')
        in (ns', filter (\<lambda>e. source e \<in> nodeIds \<and> target e \<in> nodeIds) es))"

definition getGraphData :: "store \<Rightarrow> graph_filter \<Rightarrow> node list \<times> edge list" where
  "getGraphData s f =
     (let g = (nodes s, edges s);
          g = (case filter_accountId f of
                 Some a \<Rightarrow> if a \<noteq> [] then applyAccountFilter a g else g
               | None \<Rightarrow> g);
          g = (case filter_dealId f of
                 Some d \<Rightarrow> if d \<noteq> [] then applyDealFilter d g else g
               | None \<Rightarrow> g);
          g = (case filter_minInfluence f of
                 Some m \<Rightarrow> if m \<noteq> 0 then applyMinInfluence m g else g
               | None \<Rightarrow> g)
      in g)"

definition deal1 :: node where
  "deal1 =
     \<lparr>node_id = ''deal_1'', node_type = ''deal'', title = None,
      influenceScore = 0, interactionCount = 0, lastInteraction = None,
      linkedin_verified = False\<rparr>"

definition alice_works_at_acme :: edge where
  "alice_works_at_acme =
     \<lparr>edge_id = ''edge_alice_works_at_acme'', source = ''alice'', target = ''acme'',
      edge_type = ''works_at'', strength = 1.0, confirmed = True, metadata = None\<rparr>"

definition alice_decides_deal1 :: edge where
  "alice_decides_deal1 =
     \<lparr>edge_id = ''edge_alice_decision_maker_for_deal_1'', source = ''alice'',
      target = ''deal_1'', edge_type = ''decision_maker_for'', strength = fl 0.95,
      confirmed = True, metadata = None\<rparr>"

definition acmeStore :: store where
  "acmeStore =
     \<lparr>nodes = [alice, acme, deal1],
      edges = [alice_works_at_acme, alice_decides_deal1],
      interactions = []\<rparr>"

definition acmeOnly :: graph_filter where
  "acmeOnly =
     \<lparr>filter_accountId = Some ''acme'', filter_dealId = None, filter_minInfluence = None\<rparr>"

subsection \<open>Graph query engine: path search\<close>

text \<open>
  The \<^verbatim>\<open>while\<close> loop of \<^verbatim>\<open>findPath\<close> over the queue of pairs (node id, path so far)
  and the set of visited ids. \<open>otherEnd\<close> is the neighbour an edge leads to.
\<close>

definition otherEnd :: "string \<Rightarrow> edge \<Rightarrow> string" where
  "otherEnd currentId e = (if source e = currentId then target e else source e)"

definition neighbors :: "edge list \<Rightarrow> string \<Rightarrow> string list" where
  "neighbors es currentId = map (otherEnd currentId) (filter (touches currentId) es)"

definition endpoints :: "edge list \<Rightarrow> string set" where
  "endpoints es = set (map source es) \<union> set (map target es)"

function findPath_loop ::
    "edge list \<Rightarrow> string \<Rightarrow> nat \<Rightarrow> string set \<Rightarrow> (string \<times> string list) list
      \<Rightarrow> string list option" where
  "findPath_loop es targetId maxDepth visited [] = None"
| "findPath_loop es targetId maxDepth visited ((currentId, path) # queue) =
     (if currentId = targetId then Some path
      else if length path > maxDepth then findPath_loop es targetId maxDepth visited queue
      else if currentId \<in> visited then findPath_loop es targetId maxDepth visited queue
      else
        findPath_loop es targetId maxDepth (insert currentId visited)
          (queue @
           map (\<lambda>neighbor. (neighbor, path @ [neighbor]))
             (filter (\<lambda>neighbor. neighbor \<notin> insert currentId visited)
                (neighbors es currentId))))"
  by pat_completeness auto

lemma neighbors_endpoints: "set (neighbors es c) \<subseteq> endpoints es"
  by (auto simp: neighbors_def endpoints_def otherEnd_def)

lemma finite_endpoints: "finite (endpoints es)"
  by (simp add: endpoints_def)

text \<open>The ids that the loop may still expand: the measure of its termination.\<close>

definition pending_ids :: "edge list \<Rightarrow> string set \<Rightarrow> (string \<times> string list) list \<Rightarrow> nat" where
  "pending_ids es visited queue = card ((endpoints es \<union> fst ` set queue) - visited)"

lemma pending_ids_skip:
  "pending_ids es visited queue \<le> pending_ids es visited ((currentId, path) # queue)"
  unfolding pending_ids_def
  by (rule card_mono) (auto simp: finite_endpoints)

lemma pending_ids_expand:
  assumes "currentId \<notin> visited" "set new \<subseteq> set (neighbors es currentId)"
  shows "pending_ids es (insert currentId visited) (queue @ map (\<lambda>n. (n, f n)) new)
    < pending_ids es visited ((currentId, path) # queue)"
proof -
  let ?U = "endpoints es \<union> fst ` set ((currentId, path) # queue)"
  let ?U' = "endpoints es \<union> fst ` set (queue @ map (\<lambda>n. (n, f n)) new)"
  have "fst ` set (map (\<lambda>n. (n, f n)) new) \<subseteq> endpoints es"
    using assms(2) neighbors_endpoints[of es currentId] by auto
  then have sub: "?U' - insert currentId visited \<subseteq> (?U - visited) - {currentId}"
    by auto
  have "currentId \<in> ?U - visited" using assms(1) by simp
  then have "(?U - visited) - {currentId} \<subset> ?U - visited" by blast
  with sub have "?U' - insert currentId visited \<subset> ?U - visited" by blast
  moreover have "finite (?U - visited)" by (simp add: finite_endpoints)
  ultimately show ?thesis
    unfolding pending_ids_def by (rule psubset_card_mono[rotated])
qed

termination findPath_loop
proof (relation "measures
    [\<lambda>(es, targetId, maxDepth, visited, queue). pending_ids es visited queue,
     \<lambda>(es, targetId, maxDepth, visited, queue). length queue]", goal_cases)
  case 1
  show ?case by simp
next
  case (2 es targetId maxDepth visited currentId path queue)
  show ?case using pending_ids_skip[of es visited queue currentId path] by auto
next
  case (3 es targetId maxDepth visited currentId path queue)
  show ?case using pending_ids_skip[of es visited queue currentId path] by auto
next
  case (4 es targetId maxDepth visited currentId path queue)
  have "pending_ids es (insert currentId visited)
      (queue @ map (\<lambda>neighbor. (neighbor, path @ [neighbor]))
         (filter (\<lambda>neighbor. neighbor \<notin> insert currentId visited) (neighbors es currentId)))
    < pending_ids es visited ((currentId, path) # queue)"
    using 4 by (intro pending_ids_expand) auto
  then show ?case by simp
qed

definition findPath :: "store \<Rightarrow> string \<Rightarrow> string \<Rightarrow> nat \<Rightarrow> node option list option" where
  "findPath s sourceId targetId maxDepth =
     map_option (map (\<lambda>i. find (\<lambda>n. node_id n = i) (nodes s)))
       (findPath_loop (edges s) targetId maxDepth {} [(sourceId, [sourceId])])"

text \<open>
  A connecting path over non-structural edges: a non-empty sequence of ids in which each
  id is joined to the next by an edge that is neither \<^verbatim>\<open>works_at\<close> nor \<^verbatim>\<open>belongs_to\<close>,
  in either direction. Its number of hops is its length minus one.
\<close>

definition adjacent :: "edge list \<Rightarrow> string \<Rightarrow> string \<Rightarrow> bool" where
  "adjacent es a b \<longleftrightarrow>
     (\<exists>e \<in> set es.
        edge_type e \<noteq> ''works_at'' \<and> edge_type e \<noteq> ''belongs_to'' \<and>
        ((source e = a \<and> target e = b) \<or> (source e = b \<and> target e = a)))"

definition connecting_path :: "edge list \<Rightarrow> string \<Rightarrow> string \<Rightarrow> string list \<Rightarrow> bool" where
  "connecting_path es a b p \<longleftrightarrow>
     p \<noteq> [] \<and> hd p = a \<and> last p = b \<and> successively (adjacent es) p"

subsection \<open>Graph query engine: org chart\<close>

text \<open>
  Reading a property of \<^verbatim>\<open>undefined\<close> throws a \<^verbatim>\<open>TypeError\<close>; a function that can throw
  returns \<open>Inl TypeError\<close> there.
\<close>

datatype error = TypeError

definition getAccountContacts :: "store \<Rightarrow> string \<Rightarrow> node list" where
  "getAccountContacts s accId =
     (let contactIds =
            map source (filter (\<lambda>e. target e = accId \<and> edge_type e = ''works_at'') (edges s))
      in filter (\<lambda>n. node_id n \<in> set contactIds) (nodes s))"

record hierarchy_entry =
  h_contact :: node
  reportsTo :: "string option"
  manages :: "string list"
  level :: nat

text \<open>
  The object \<^verbatim>\<open>hierarchy\<close>, keyed by contact id, as an association list in insertion
  order. \<open>assign k v h\<close> is \<^verbatim>\<open>hierarchy[k] = v\<close>: it replaces the value of an existing key
  and adds a new key at the end.
\<close>

type_synonym hierarchy = "(string \<times> hierarchy_entry) list"

fun assign :: "string \<Rightarrow> hierarchy_entry \<Rightarrow> hierarchy \<Rightarrow> hierarchy" where
  "assign k v [] = [(k, v)]"
| "assign k v ((k', v') # h) = (if k' = k then (k, v) # h else (k', v') # assign k v h)"

definition initHierarchy :: "node list \<Rightarrow> hierarchy" where
  "initHierarchy cs =
     fold (\<lambda>c h. assign (node_id c)
                    \<lparr>h_contact = c, reportsTo = None, manages = [], level = 0\<rparr> h)
       cs []"

text \<open>
  The body of \<^verbatim>\<open>orgEdges.forEach\<close>. \<^verbatim>\<open>hierarchy[edge.source]\<close> and
  \<^verbatim>\<open>hierarchy[edge.target]\<close> are read without a check: when the id is not a key of the
  hierarchy the access to \<^verbatim>\<open>.reportsTo\<close> or \<^verbatim>\<open>.manages\<close> throws.
\<close>

definition applyOrgEdge :: "edge \<Rightarrow> hierarchy \<Rightarrow> error + hierarchy" where
  "applyOrgEdge e h =
     (if edge_type e = ''reports_to'' then
        (case map_of h (source e) of
           None \<Rightarrow> Inl TypeError
         | Some src \<Rightarrow>
             let h1 = assign (source e) (src\<lparr>reportsTo := Some (target e)\<rparr>) h
             in (case map_of h1 (target e) of
                   None \<Rightarrow> Inl TypeError
                 | Some tgt \<Rightarrow>
                     if source e \<in> set (manages tgt) then Inr h1
                     else Inr (assign (target e) (tgt\<lparr>manages := manages tgt @ [source e]\<rparr>) h1)))
      else if edge_type e = ''manages'' then
        (case map_of h (source e) of
           None \<Rightarrow> Inl TypeError
         | Some src \<Rightarrow>
             let h1 = (if target e \<in> set (manages src) then h
                       else assign (source e) (src\<lparr>manages := manages src @ [target e]\<rparr>) h)
             in (case map_of h1 (target e) of
                   None \<Rightarrow> Inl TypeError
                 | Some tgt \<Rightarrow> Inr (assign (target e) (tgt\<lparr>reportsTo := Some (source e)\<rparr>) h1)))
      else Inr h)"

fun applyOrgEdges :: "edge list \<Rightarrow> hierarchy \<Rightarrow> error + hierarchy" where
  "applyOrgEdges [] h = Inr h"
| "applyOrgEdges (e # es) h =
     (case applyOrgEdge e h of
        Inl err \<Rightarrow> Inl err
      | Inr h' \<Rightarrow> applyOrgEdges es h')"

text \<open>
  \<^verbatim>\<open>calculateLevels(contactId, visited)\<close>. The set \<^verbatim>\<open>visited\<close> is created by the top call
  and handed down the recursion, which adds the contact before it follows the pointer.
  \<^verbatim>\<open>!node.reportsTo\<close> holds when the pointer is \<^verbatim>\<open>null\<close> or the empty string.
\<close>

function calculateLevels :: "hierarchy \<Rightarrow> string \<Rightarrow> string set \<Rightarrow> error + nat" where
  "calculateLevels h cid visited =
     (if cid \<in> visited then Inr 0
      else
        (case map_of h cid of
           None \<Rightarrow> Inl TypeError
         | Some entry \<Rightarrow>
             (case reportsTo entry of
                None \<Rightarrow> Inr 0
              | Some manager \<Rightarrow>
                  if manager = [] then Inr 0
                  else
                    (case calculateLevels h manager (insert cid visited) of
                       Inl err \<Rightarrow> Inl err
                     | Inr l \<Rightarrow> Inr (l + 1)))))"
  by pat_completeness auto

termination calculateLevels
proof (relation "measure (\<lambda>(h, cid, visited). card (fst ` set h - visited))", goal_cases)
  case 1
  show ?case by simp
next
  case (2 h cid visited entry manager)
  have "cid \<in> fst ` set h"
    using 2(2) by (metis map_of_eq_None_iff option.distinct(1))
  then have "fst ` set h - insert cid visited \<subset> fst ` set h - visited"
    using 2(1) by blast
  then have "card (fst ` set h - insert cid visited) < card (fst ` set h - visited)"
    by (rule psubset_card_mono[rotated]) simp
  then show ?case by simp
qed

text \<open>
  \<^verbatim>\<open>Object.keys(hierarchy).forEach\<close>: every entry gets the level of its key, computed
  with a fresh \<^verbatim>\<open>visited\<close> set. The levels written do not feed into later levels
  (\<open>calculateLevels\<close> reads only \<open>reportsTo\<close>), so all are computed on the hierarchy \<open>h\<close>.
\<close>

fun withLevels :: "hierarchy \<Rightarrow> hierarchy \<Rightarrow> error + hierarchy" where
  "withLevels h [] = Inr []"
| "withLevels h ((k, entry) # rest) =
     (case calculateLevels h k {} of
        Inl err \<Rightarrow> Inl err
      | Inr l \<Rightarrow>
          (case withLevels h rest of
             Inl err \<Rightarrow> Inl err
           | Inr rest' \<Rightarrow> Inr ((k, entry\<lparr>level := l\<rparr>) # rest')))"

definition orgEdges :: "store \<Rightarrow> node list \<Rightarrow> edge list" where
  "orgEdges s cs =
     filter (\<lambda>e. (\<exists>c \<in> set cs. node_id c = source e \<or> node_id c = target e) \<and>
                 (edge_type e = ''reports_to'' \<or> edge_type e = ''manages''))
       (edges s)"

definition getOrgChart :: "store \<Rightarrow> string \<Rightarrow> error + hierarchy" where
  "getOrgChart s accId =
     (let cs = getAccountContacts s accId;
          es = orgEdges s cs
      in (case applyOrgEdges es (initHierarchy cs) of
            Inl err \<Rightarrow> Inl err
          | Inr h \<Rightarrow> withLevels h h))"

declare calculateLevels.simps [simp del]

text \<open>A reporting cycle inside one account: Alice reports to Bob and Bob to Alice.\<close>

definition bob_works_at_acme :: edge where
  "bob_works_at_acme =
     \<lparr>edge_id = ''edge_bob_works_at_acme'', source = ''bob'', target = ''acme'',
      edge_type = ''works_at'', strength = 1.0, confirmed = True, metadata = None\<rparr>"

definition alice_reports_to_bob :: edge where
  "alice_reports_to_bob =
     \<lparr>edge_id = ''edge_alice_reports_bob'', source = ''alice'', target = ''bob'',
      edge_type = ''reports_to'', strength = fl 0.9, confirmed = True, metadata = None\<rparr>"

definition cyclicStore :: store where
  "cyclicStore =
     \<lparr>nodes = [alice, bob, acme],
      edges = [alice_works_at_acme, bob_works_at_acme, bob_reports_to_alice,
               alice_reports_to_bob],
      interactions = []\<rparr>"

definition cyclicHierarchy :: hierarchy where
  "cyclicHierarchy =
     [(''alice'', \<lparr>h_contact = alice, reportsTo = Some ''bob'', manages = [''bob''], level = 0\<rparr>),
      (''bob'', \<lparr>h_contact = bob, reportsTo = Some ''alice'', manages = [''alice''], level = 0\<rparr>)]"

text \<open>The contacts on the chain of manager pointers that starts at a contact.\<close>

inductive_set chain :: "hierarchy \<Rightarrow> string \<Rightarrow> string set" for h :: hierarchy and c :: string where
  start: "c \<in> chain h c"
| step: "x \<in> chain h c \<Longrightarrow> map_of h x = Some entry \<Longrightarrow> reportsTo entry = Some manager \<Longrightarrow>
         manager \<noteq> [] \<Longrightarrow> manager \<in> chain h c"

subsection \<open>Importer\<close>

text \<open>
  The records \<^verbatim>\<open>loadFromHubSpot\<close> receives from the CRM service. An optional field is
  \<open>None\<close> when it is missing; \<^verbatim>\<open>a || b\<close> on ids takes \<open>a\<close> unless it is missing or empty.
\<close>

record hs_contact =
  hc_id :: string
  hc_hubspotId :: string
  hc_title :: "string option"
  hc_role :: string
  hc_reportsTo :: "string option"
  hc_managerId :: "string option"
  hc_companyId :: "string option"

record hs_company =
  co_id :: string
  co_hubspotId :: string

record hs_deal =
  hd_id :: string
  hd_hubspotId :: string
  hd_companyId :: "string option"
  hd_contactIds :: "string list"

definition truthy :: "string option \<Rightarrow> bool" where
  "truthy x \<longleftrightarrow> x \<noteq> None \<and> x \<noteq> Some []"

definition orElse :: "string option \<Rightarrow> string option \<Rightarrow> string option" where
  "orElse a b = (if truthy a then a else b)"

definition contactNode :: "hs_contact \<Rightarrow> node" where
  "contactNode c =
     \<lparr>node_id = hc_id c, node_type = ''contact'', title = hc_title c, influenceScore = 0,
      interactionCount = 0, lastInteraction = None,
      linkedin_verified = False\<rparr>"

definition companyNode :: "hs_company \<Rightarrow> node" where
  "companyNode co =
     \<lparr>node_id = co_id co, node_type = ''account'', title = None, influenceScore = 0,
      interactionCount = 0, lastInteraction = None,
      linkedin_verified = False\<rparr>"

definition dealNode :: "hs_deal \<Rightarrow> node" where
  "dealNode d =
     \<lparr>node_id = hd_id d, node_type = ''deal'', title = None, influenceScore = 0,
      interactionCount = 0, lastInteraction = None,
      linkedin_verified = False\<rparr>"

text \<open>The edges pushed for one contact: the reporting line, then the employment.\<close>

definition reportsToEdge :: "int \<Rightarrow> hs_contact list \<Rightarrow> hs_contact \<Rightarrow> edge list" where
  "reportsToEdge now contacts c =
     (if truthy (orElse (hc_reportsTo c) (hc_managerId c)) then
        (let managerId = orElse (hc_reportsTo c) (hc_managerId c) in
         case find (\<lambda>m. Some (hc_id m) = managerId \<or> Some (hc_hubspotId m) = managerId) contacts of
           None \<Rightarrow> []
         | Some manager \<Rightarrow>
             [\<lparr>edge_id = ''edge_'' @ hc_id c @ ''_reports_'' @ hc_id manager,
               source = hc_id c, target = hc_id manager, edge_type = ''reports_to'',
               strength = fl 0.9, confirmed = True,
               metadata = Some \<lparr>em_lastInteraction = None, em_interactionCount = 0\<rparr>\<rparr>])
      else [])"

definition worksAtEdge :: "hs_company list \<Rightarrow> hs_contact \<Rightarrow> edge list" where
  "worksAtEdge companies c =
     (if truthy (hc_companyId c) then
        (case find (\<lambda>co. Some (co_hubspotId co) = hc_companyId c) companies of
           None \<Rightarrow> []
         | Some company \<Rightarrow>
             [\<lparr>edge_id = ''edge_'' @ hc_id c @ ''_works_at_'' @ co_id company,
               source = hc_id c, target = co_id company, edge_type = ''works_at'',
               strength = 1.0, confirmed = True, metadata = None\<rparr>])
      else [])"

text \<open>The edges pushed for one deal: its company, then its contacts.\<close>

definition belongsToEdge :: "hs_company list \<Rightarrow> hs_deal \<Rightarrow> edge list" where
  "belongsToEdge companies d =
     (if truthy (hd_companyId d) then
        (case find (\<lambda>co. Some (co_hubspotId co) = hd_companyId d) companies of
           None \<Rightarrow> []
         | Some company \<Rightarrow>
             [\<lparr>edge_id = ''edge_'' @ hd_id d @ ''_belongs_to_'' @ co_id company,
               source = hd_id d, target = co_id company, edge_type = ''belongs_to'',
               strength = 1.0, confirmed = True, metadata = None\<rparr>])
      else [])"

definition dealContactEdge :: "hs_contact list \<Rightarrow> hs_deal \<Rightarrow> string \<Rightarrow> edge list" where
  "dealContactEdge contacts d contactRef =
     (case find (\<lambda>c. hc_hubspotId c = contactRef) contacts of
        None \<Rightarrow> []
      | Some c \<Rightarrow>
          (let relationshipType =
                 (if hc_role c = ''decision_maker'' then ''decision_maker_for''
                  else ''influencer_for'')
           in [\<lparr>edge_id = ''edge_'' @ hc_id c @ ''_'' @ relationshipType @ ''_'' @ hd_id d,
                 source = hc_id c, target = hd_id d, edge_type = relationshipType,
                 strength = (if hc_role c = ''decision_maker'' then fl 0.95 else fl 0.7),
                 confirmed = True, metadata = None\<rparr>]))"

text \<open>
  \<^verbatim>\<open>loadFromHubSpot\<close> replaces the nodes and the edges of the store. (The interaction
  history it loads afterwards comes from the CRM and is appended to the interactions; it
  is not part of this model.)
\<close>

definition loadFromHubSpot ::
    "int \<Rightarrow> hs_contact list \<Rightarrow> hs_deal list \<Rightarrow> hs_company list \<Rightarrow> store \<Rightarrow> store" where
  "loadFromHubSpot now contacts deals companies s =
     s\<lparr>nodes := map contactNode contacts @ map companyNode companies @ map dealNode deals,
       edges :=
         concat (map (\<lambda>c. reportsToEdge now contacts c @ worksAtEdge companies c) contacts) @
         concat (map (\<lambda>d. belongsToEdge companies d @
                           concat (map (dealContactEdge contacts d) (hd_contactIds d)))
                   deals)\<rparr>"

subsection \<open>Enrichment\<close>

text \<open>
  The profile service \<^verbatim>\<open>LinkedInService\<close> (CDN/api/telemetry-endpoints.md). Its backend is
  a parameter of the model: \<open>profileOf contact\<close> is the profile that the lookups of
  \<^verbatim>\<open>enrichContact\<close> find for the contact (by email, else by name and company), \<open>None\<close>
  when they find none or fail; \<open>relationshipsOf cid others\<close> is the list that the backend
  answers to \<^verbatim>\<open>POST /relationships\<close> for the contact id and the ids of the other
  contacts, empty when the request fails. \<open>configured\<close> is \<^verbatim>\<open>isConfigured()\<close>.

  Of a profile the model keeps the headline, the one field that reaches a field of
  \<open>node\<close>: \<^verbatim>\<open>mergeLinkedInData\<close> sets
  \<^verbatim>\<open>title: contact.title || linkedinProfile.headline || ''\<close> and \<^verbatim>\<open>linkedin.verified: true\<close>.
\<close>

record profile =
  pf_headline :: "string option"

definition mergeLinkedInData :: "node \<Rightarrow> profile \<Rightarrow> node" where
  "mergeLinkedInData contact p =
     contact\<lparr>title := Some (case orElse (title contact) (pf_headline p) of
                               None \<Rightarrow> []
                             | Some t \<Rightarrow> t),
             linkedin_verified := True\<rparr>"

definition enrichContact :: "bool \<Rightarrow> (node \<Rightarrow> profile option) \<Rightarrow> node \<Rightarrow> node" where
  "enrichContact configured profileOf contact =
     (if \<not> configured then contact
      else case profileOf contact of
             None \<Rightarrow> contact
           | Some p \<Rightarrow> mergeLinkedInData contact p)"

text \<open>
  A relationship as the backend returns it. \<open>rel_source\<close> is \<^verbatim>\<open>rel.sourceId || rel.source\<close>,
  \<open>rel_target\<close> is \<^verbatim>\<open>rel.targetId || rel.target\<close> and \<open>rel_type\<close> is
  \<^verbatim>\<open>rel.type || rel.relationshipType\<close>; \<open>rel_confidence\<close> and \<open>rel_strength\<close> are the numbers
  \<^verbatim>\<open>rel.confidence\<close> and \<^verbatim>\<open>rel.strength\<close>, \<open>None\<close> when the field is missing.
\<close>

record relationship =
  rel_source :: string
  rel_target :: string
  rel_type :: "string option"
  rel_confidence :: "real option"
  rel_strength :: "real option"

definition determineRelationshipType :: "string option \<Rightarrow> string" where
  "determineRelationshipType t =
     (case t of
        None \<Rightarrow> ''suggested''
      | Some k \<Rightarrow>
          (case map_of [(''colleague'', ''former_colleague''), (''school'', ''alumni''),
                        (''connection'', ''connected''), (''mutual'', ''mutual_connection'')] k of
             Some v \<Rightarrow> v
           | None \<Rightarrow> ''suggested''))"

text \<open>\<^verbatim>\<open>a || b\<close> on an optional number: \<open>a\<close> unless it is missing or 0.\<close>

definition numOr :: "real option \<Rightarrow> real \<Rightarrow> real" where
  "numOr a b = (case a of None \<Rightarrow> b | Some x \<Rightarrow> if x = 0 then b else x)"

text \<open>
  A normalized suggestion. Its strength is \<^verbatim>\<open>rel.confidence || rel.strength || 0.5\<close>, as
  the backend sent it. Of the \<^verbatim>\<open>metadata\<close> object of a suggestion (\<^verbatim>\<open>source\<close>,
  \<^verbatim>\<open>mutualConnections\<close>, \<^verbatim>\<open>sharedCompanies\<close>, \<^verbatim>\<open>sharedSchools\<close>, \<^verbatim>\<open>note\<close>) nothing is read
  by the functions of this theory: in \<open>edge_metadata\<close> it is the metadata without an
  interaction.
\<close>

record suggestion =
  sg_source :: string
  sg_target :: string
  sg_type :: string
  sg_strength :: real

definition normalizeRelationship :: "relationship \<Rightarrow> suggestion" where
  "normalizeRelationship rel =
     \<lparr>sg_source = rel_source rel, sg_target = rel_target rel,
      sg_type = determineRelationshipType (rel_type rel),
      sg_strength = numOr (rel_confidence rel) (numOr (rel_strength rel) 0.5)\<rparr>"

definition getRelationshipSuggestions ::
    "bool \<Rightarrow> (string \<Rightarrow> string list \<Rightarrow> relationship list) \<Rightarrow> string \<Rightarrow> node list
      \<Rightarrow> suggestion list" where
  "getRelationshipSuggestions configured relationshipsOf cid otherContacts =
     (if \<not> configured then []
      else map normalizeRelationship (relationshipsOf cid (map node_id otherContacts)))"

text \<open>
  The body of the loop over the suggestions in \<^verbatim>\<open>enrichWithLinkedIn\<close>: the edge is pushed
  unless an edge already joins the two ids in either direction. Nothing looks the ids up
  in the nodes.
\<close>

definition joined :: "edge list \<Rightarrow> string \<Rightarrow> string \<Rightarrow> bool" where
  "joined es a b \<longleftrightarrow>
     (\<exists>e \<in> set es. (source e = a \<and> target e = b) \<or> (source e = b \<and> target e = a))"

definition suggestedEdge :: "suggestion \<Rightarrow> edge" where
  "suggestedEdge sg =
     \<lparr>edge_id = ''edge_linkedin_'' @ sg_source sg @ ''_'' @ sg_target sg,
      source = sg_source sg, target = sg_target sg, edge_type = sg_type sg,
      strength = sg_strength sg, confirmed = False,
      metadata = Some \<lparr>em_lastInteraction = None, em_interactionCount = 0\<rparr>\<rparr>"

definition addSuggestedEdge :: "suggestion \<Rightarrow> edge list \<Rightarrow> edge list" where
  "addSuggestedEdge sg es =
     (if joined es (sg_source sg) (sg_target sg) then es else es @ [suggestedEdge sg])"

text \<open>
  \<^verbatim>\<open>enrichWithLinkedIn\<close>. The loop runs over the contact nodes in order. One turn
  replaces the fields of its contact by those of the enriched contact
  (\<^verbatim>\<open>Object.assign(contact, enriched)\<close>) and, when the contact then carries a verified
  profile, pushes the suggested edges. A turn reads no node but its own contact (of the
  other contacts only the ids, which no turn changes), so the nodes after the loop are
  the contacts enriched one by one, and the edges are those of the turns in order.
  Nothing in a turn throws in the model, so the \<^verbatim>\<open>catch\<close> of the loop has no branch.
\<close>

definition enrichTurn ::
    "(node \<Rightarrow> profile option) \<Rightarrow> (string \<Rightarrow> string list \<Rightarrow> relationship list) \<Rightarrow> node list
      \<Rightarrow> node \<Rightarrow> edge list \<Rightarrow> edge list" where
  "enrichTurn profileOf relationshipsOf contacts contact es =
     (let enriched = enrichContact True profileOf contact
      in if linkedin_verified enriched
         then fold addSuggestedEdge
                (getRelationshipSuggestions True relationshipsOf (node_id contact)
                   (filter (\<lambda>c. node_id c \<noteq> node_id contact) contacts))
                es
         else es)"

definition enrichWithLinkedIn ::
    "bool \<Rightarrow> (node \<Rightarrow> profile option) \<Rightarrow> (string \<Rightarrow> string list \<Rightarrow> relationship list)
      \<Rightarrow> store \<Rightarrow> store" where
  "enrichWithLinkedIn configured profileOf relationshipsOf s =
     (if \<not> configured then s
      else
        let contacts = filter (\<lambda>n. node_type n = ''contact'') (nodes s)
        in s\<lparr>nodes := map (\<lambda>n. if node_type n = ''contact''
                                then enrichContact True profileOf n else n)
                          (nodes s),
             edges := fold (enrichTurn profileOf relationshipsOf contacts) contacts (edges s)\<rparr>)"

text \<open>
  Two answers of a backend for Alice: a profile, with a former colleague whose id is
  the id of no node, and a connection to Bob with \<^verbatim>\<open>confidence: 85\<close>.
\<close>

definition aliceProfile :: profile where
  "aliceProfile = \<lparr>pf_headline = Some ''Chief Technology Officer''\<rparr>"


definition percentRelationship :: relationship where
  "percentRelationship =
     \<lparr>rel_source = ''alice'', rel_target = ''bob'', rel_type = Some ''connection'',
      rel_confidence = Some 85, rel_strength = None\<rparr>"

definition aliceHasProfile :: "node \<Rightarrow> profile option" where
  "aliceHasProfile n = (if node_id n = ''alice'' then Some aliceProfile else None)"


definition percentBackend :: "string \<Rightarrow> string list \<Rightarrow> relationship list" where
  "percentBackend cid others = (if cid = ''alice'' then [percentRelationship] else [])"




text \<open>Dana has no company; Eric works at Acme and reports to Dana.\<close>

definition hsDana :: hs_contact where
  "hsDana =
     \<lparr>hc_id = ''hubspot_contact_4'', hc_hubspotId = ''4'', hc_title = Some ''VP Sales'',
      hc_role = ''influencer'', hc_reportsTo = None, hc_managerId = None,
      hc_companyId = None\<rparr>"

definition hsEric :: hs_contact where
  "hsEric =
     \<lparr>hc_id = ''hubspot_contact_5'', hc_hubspotId = ''5'', hc_title = Some ''Manager'',
      hc_role = ''influencer'', hc_reportsTo = Some ''4'', hc_managerId = None,
      hc_companyId = Some ''10''\<rparr>"

definition hsAcme :: hs_company where
  "hsAcme = \<lparr>co_id = ''hubspot_company_10'', co_hubspotId = ''10''\<rparr>"

subsection \<open>Deal health orchestrator: momentum, ghosting, urgency\<close>

text \<open>
  An entry of the activity log in session storage, with the fields \<^verbatim>\<open>detectMomentum\<close> and
  \<^verbatim>\<open>calculateLastContactDays\<close> read. \<open>meta_emailOpened\<close> is
  \<^verbatim>\<open>a.metadata?.emailOpened === true\<close>; an optional field is \<open>None\<close> when it is missing.
\<close>

record activity =
  act_type :: string
  act_date :: "int option"
  act_dealId :: string
  act_url :: "string option"
  act_debrief :: "string option"
  act_summary :: "string option"
  act_action :: "string option"
  meta_emailOpened :: bool
  meta_opens :: "real option"
  meta_linkUrl :: "string option"
  meta_url :: "string option"
  meta_linkClicked :: "string option"

text \<open>
  The answer of \<^verbatim>\<open>telemetryService.getRecentEngagement(deal.id, 24)\<close>; the parameter is
  \<open>None\<close> when there is no telemetry service or the call throws.
\<close>

record telemetry =
  emails_opened :: nat
  emails_clicked :: nat
  documents_viewed :: nat
  calendar_accepted :: nat

definition getDealActivities ::
    "(string \<Rightarrow> activity list) \<Rightarrow> activity list \<Rightarrow> string \<Rightarrow> activity list" where
  "getDealActivities dealActivities allActivities dId =
     dealActivities dId @ filter (\<lambda>a. act_dealId a = dId) allActivities"

text \<open>\<^verbatim>\<open>a || b\<close> on optional strings, and \<^verbatim>\<open>a || ''\<close>.\<close>

definition orElseStr :: "string option \<Rightarrow> string option \<Rightarrow> string option" where
  "orElseStr a b = (if a \<noteq> None \<and> a \<noteq> Some [] then a else b)"

definition orEmpty :: "string option \<Rightarrow> string" where
  "orEmpty a = (case a of None \<Rightarrow> [] | Some x \<Rightarrow> x)"

text \<open>\<^verbatim>\<open>a.date\<close> is present and not before \<^verbatim>\<open>last24Hours\<close>.\<close>

definition recent :: "int \<Rightarrow> activity \<Rightarrow> bool" where
  "recent last24Hours a \<longleftrightarrow>
     (case act_date a of None \<Rightarrow> False | Some activityDate \<Rightarrow> \<not> activityDate < last24Hours)"

record momentum =
  emailOpens :: nat
  emailClicks :: nat
  pricingClicks :: nat
  proposalOpens :: nat
  meetingAccepted :: bool
  hasMomentum :: bool

text \<open>\<^verbatim>\<open>n || xs.length\<close> for the telemetry counters: the telemetry count unless it is 0
  or there is no telemetry.\<close>

definition countOr :: "nat option \<Rightarrow> nat \<Rightarrow> nat" where
  "countOr t n = (case t of None \<Rightarrow> n | Some k \<Rightarrow> if k \<noteq> 0 then k else n)"

definition detectMomentum :: "int \<Rightarrow> telemetry option \<Rightarrow> activity list \<Rightarrow> momentum" where
  "detectMomentum now telemetryData activities =
     (let last24Hours = now - 24 * 60 * 60 * 1000;
          recentEmailOpens =
            countOr (map_option emails_opened telemetryData)
              (length (filter (\<lambda>a.
                   (act_type a = ''email'' \<or> act_type a = ''email_open'') \<and>
                   recent last24Hours a \<and>
                   (meta_emailOpened a \<or>
                    (case meta_opens a of None \<Rightarrow> False | Some n \<Rightarrow> n > 0) \<or>
                    act_type a = ''email_open''))
                 activities));
          recentEmailClicks =
            countOr (map_option emails_clicked telemetryData)
              (length (filter (\<lambda>a. act_type a = ''email_click'' \<and> recent last24Hours a)
                 activities));
          pricing =
            length (filter (\<lambda>a.
                (act_type a = ''email_click'' \<or> act_type a = ''link'') \<and>
                recent last24Hours a \<and>
                (let linkUrl =
                       orEmpty (orElseStr (orElseStr (meta_linkUrl a) (meta_url a)) (act_url a))
                 in includes_str (toLowerCase linkUrl) ''pricing'' \<or>
                    includes_str (toLowerCase linkUrl) ''price'' \<or>
                    meta_linkClicked a = Some ''pricing''))
              activities);
          proposals =
            countOr (map_option documents_viewed telemetryData)
              (length (filter (\<lambda>a.
                   act_type a = ''document_view'' \<and>
                   recent last24Hours a \<and>
                   (let summary = toLowerCase (orEmpty (orElseStr (act_debrief a) (act_summary a)));
                        linkUrl = toLowerCase (orEmpty (meta_linkUrl a))
                    in includes_str summary ''proposal'' \<or> includes_str summary ''opened'' \<or>
                       includes_str linkUrl ''proposal'' \<or> includes_str linkUrl ''document'' \<or>
                       act_type a = ''document_view''))
                 activities));
          accepted =
            ((case telemetryData of None \<Rightarrow> False | Some t \<Rightarrow> calendar_accepted t > 0) \<or>
             (\<exists>a \<in> set activities.
                act_type a = ''calendar_interaction'' \<and> recent last24Hours a \<and>
                act_action a = Some ''accepted''))
      in \<lparr>emailOpens = recentEmailOpens, emailClicks = recentEmailClicks,
          pricingClicks = pricing, proposalOpens = proposals, meetingAccepted = accepted,
          hasMomentum = (recentEmailOpens > 2 \<or> recentEmailClicks > 0 \<or> pricing > 1 \<or>
                         proposals > 0 \<or> accepted)\<rparr>)"

text \<open>
  \<^verbatim>\<open>calculateLastContactDays\<close>: the contact activities are sorted by date, latest
  first, and the first one counts.
\<close>

definition calculateLastContactDays :: "int \<Rightarrow> deal \<Rightarrow> activity list \<Rightarrow> int" where
  "calculateLastContactDays now d activities =
     (if activities = [] then
        (case lastActivity d of
           Some t \<Rightarrow> \<lfloor>real_of_int (now - t) / real_of_int msPerDay\<rfloor>
         | None \<Rightarrow> 999)
      else
        (case sort_key (\<lambda>t. - t)
                (concat (map (\<lambda>a. if act_type a \<in> set [''call'', ''email'', ''meeting'']
                                    then (case act_date a of None \<Rightarrow> [] | Some t \<Rightarrow> [t])
                                    else [])
                           activities)) of
           [] \<Rightarrow> 999
         | lastContactDate # _ \<Rightarrow>
             \<lfloor>real_of_int (now - lastContactDate) / real_of_int msPerDay\<rfloor>))"

record ghosting =
  isGhosting :: bool
  lastContactDays :: int

definition detectGhosting :: "int \<Rightarrow> deal \<Rightarrow> activity list \<Rightarrow> ghosting" where
  "detectGhosting now d activities =
     (let days = calculateLastContactDays now d activities
      in \<lparr>isGhosting = (days > 7 \<and> stage d \<noteq> Some ''closed''), lastContactDays = days\<rparr>)"

definition calculateUrgencyScore :: "deal \<Rightarrow> momentum \<Rightarrow> stalling \<Rightarrow> ghosting \<Rightarrow> int" where
  "calculateUrgencyScore d m st gh =
     (let score = 1;
          score = score + real_of_int \<lfloor>probability d / 10\<rfloor>;
          score = (if hasMomentum m
                   then score + real (emailOpens m) * 0.5 + real (pricingClicks m) * 1 +
                        real (proposalOpens m) * 1.5
                   else score);
          score = (if isStalling st
                   then score + min (real_of_int (daysInStage st) / 10) 3
                   else score);
          score = (if isGhosting gh
                   then score + min (real_of_int (lastContactDays gh) / 7) 2
                   else score);
          score = (if deal_value d > 200000 then score + 1 else score)
      in min (max (Math_round score) 1) 10)"

subsection \<open>Deal health orchestrator: actions and analysis\<close>

text \<open>
  The texts \<^verbatim>\<open>rationale\<close>, \<^verbatim>\<open>signal_reason\<close> and \<^verbatim>\<open>issue\<close> are template strings; the
  model keeps which template was chosen and the numbers put into it. \<^verbatim>\<open>draft_content\<close>
  is left out.
\<close>

datatype rationale =
    ProposalOpened
  | PricingViewed
  | HighEmailEngagement
  | NoContactBreakUp int
  | GoingColdLinkedIn
  | StuckInStage "string option" int
  | RegularFollowUp

record smart_action =
  action_type :: string
  target_name :: string
  action_rationale :: rationale

definition primaryContact :: "deal \<Rightarrow> string" where
  "primaryContact d =
     (case deal_contacts d of
        [] \<Rightarrow> ''the team''
      | c # _ \<Rightarrow> if c = [] then ''the team'' else c)"

definition generateSmartActions ::
    "int \<Rightarrow> deal \<Rightarrow> activity list \<Rightarrow> momentum \<Rightarrow> stalling \<Rightarrow> ghosting \<Rightarrow> smart_action list" where
  "generateSmartActions now d activities m st gh =
     (let who = primaryContact d;
          actions =
            (if hasMomentum m then
               (if proposalOpens m > 0 then
                  [\<lparr>action_type = ''EMAIL'', target_name = who, action_rationale = ProposalOpened\<rparr>]
                else if pricingClicks m > 0 then
                  [\<lparr>action_type = ''EMAIL'', target_name = who, action_rationale = PricingViewed\<rparr>]
                else if emailOpens m > 2 then
                  [\<lparr>action_type = ''CALL'', target_name = who,
                    action_rationale = HighEmailEngagement\<rparr>]
                else [])
             else []);
          actions =
            (if isGhosting gh then
               actions @
               [\<lparr>action_type = ''EMAIL'', target_name = who,
                 action_rationale = NoContactBreakUp (lastContactDays gh)\<rparr>] @
               (if probability d > 50 then
                  [\<lparr>action_type = ''LINKEDIN'', target_name = who,
                    action_rationale = GoingColdLinkedIn\<rparr>]
                else [])
             else actions);
          actions =
            (if isStalling st then
               actions @
               [\<lparr>action_type = ''CALL'', target_name = who,
                 action_rationale = StuckInStage (stalling_stage st) (daysInStage st)\<rparr>]
             else actions);
          actions =
            (if actions = [] \<and> stage d \<noteq> Some ''closed'' then
               (if calculateLastContactDays now d activities > 3 then
                  [\<lparr>action_type = ''EMAIL'', target_name = who,
                    action_rationale = RegularFollowUp\<rparr>]
                else actions)
             else actions)
      in take 3 actions)"

datatype signal_reason = OpenedProposal nat | ClickedPricing nat | OpenedEmails nat

text \<open>\<^verbatim>\<open>signalReason\<close> in \<^verbatim>\<open>analyze\<close>; \<open>None\<close> is the empty string it starts with.\<close>

definition signalReason :: "momentum \<Rightarrow> signal_reason option" where
  "signalReason m =
     (if proposalOpens m > 0 then Some (OpenedProposal (proposalOpens m))
      else if pricingClicks m > 0 then Some (ClickedPricing (pricingClicks m))
      else if emailOpens m > 2 then Some (OpenedEmails (emailOpens m))
      else None)"

record hot_lead =
  hl_deal_id :: string
  lead_name :: string
  signal :: signal_reason
  urgency_score :: int

text \<open>The hot lead that the loop body of \<^verbatim>\<open>analyze\<close> pushes for one deal, if any.\<close>

definition hotLeadFor :: "deal \<Rightarrow> momentum \<Rightarrow> stalling \<Rightarrow> ghosting \<Rightarrow> hot_lead list" where
  "hotLeadFor d m st gh =
     (if hasMomentum m then
        (case signalReason m of
           None \<Rightarrow> []
         | Some reason \<Rightarrow>
             [\<lparr>hl_deal_id = deal_id d, lead_name = deal_name d, signal = reason,
               urgency_score = calculateUrgencyScore d m st gh\<rparr>])
      else [])"

datatype issue = Stuck "string option" int real | NoContact int

record risk =
  risk_deal_id :: string
  risk_deal_name :: string
  risk_issue :: issue
  suggested_fix :: string

definition risksFor :: "deal \<Rightarrow> stalling \<Rightarrow> ghosting \<Rightarrow> risk list" where
  "risksFor d st gh =
     (if isStalling st then
        [\<lparr>risk_deal_id = deal_id d, risk_deal_name = deal_name d,
          risk_issue = Stuck (stalling_stage st) (daysInStage st)
                         (avgDuration (stalling_stage st)),
          suggested_fix = (if daysInStage st > 20
                           then ''Send break-up email to re-engage or close''
                           else ''Schedule call to identify blockers'')\<rparr>]
      else []) @
     (if isGhosting gh then
        [\<lparr>risk_deal_id = deal_id d, risk_deal_name = deal_name d,
          risk_issue = NoContact (lastContactDays gh),
          suggested_fix = (if lastContactDays gh > 14
                           then ''Send break-up email''
                           else ''Reach out via LinkedIn or email'')\<rparr>]
      else [])"

record analysis =
  hot_leads :: "hot_lead list"
  risks :: "risk list"
  smart_actions :: "smart_action list"

text \<open>
  \<^verbatim>\<open>analyze\<close>, with the pipeline, the activity log and the telemetry as parameters.
  \<^verbatim>\<open>Array.prototype.sort\<close> is stable, as \<open>sort_key\<close> is; the hot leads are sorted by
  falling urgency, the risks by falling value of their deal.
\<close>

definition dealValueOf :: "deal list \<Rightarrow> string \<Rightarrow> real" where
  "dealValueOf ds dId =
     (case find (\<lambda>d. deal_id d = dId) ds of None \<Rightarrow> 0 | Some d \<Rightarrow> deal_value d)"

definition analyze ::
    "int \<Rightarrow> deal list \<Rightarrow> (string \<Rightarrow> activity list) \<Rightarrow> activity list \<Rightarrow>
     (string \<Rightarrow> telemetry option) \<Rightarrow> analysis" where
  "analyze now deals dealActivities allActivities telemetryOf =
     (let activeDeals = filter (\<lambda>d. stage d \<noteq> Some ''closed'') deals;
          perDeal = (\<lambda>d.
            let activities = getDealActivities dealActivities allActivities (deal_id d);
                m = detectMomentum now (telemetryOf (deal_id d)) activities;
                st = detectStalling now d;
                gh = detectGhosting now d activities
            in (hotLeadFor d m st gh, risksFor d st gh,
                generateSmartActions now d activities m st gh));
          hotLeads = concat (map (\<lambda>d. fst (perDeal d)) activeDeals);
          rs = concat (map (\<lambda>d. fst (snd (perDeal d))) activeDeals);
          smartActions = concat (map (\<lambda>d. snd (snd (perDeal d))) activeDeals)
      in \<lparr>hot_leads = take 5 (sort_key (\<lambda>l. - urgency_score l) hotLeads),
          risks = take 5 (sort_key (\<lambda>r. - dealValueOf activeDeals (risk_deal_id r)) rs),
          smart_actions = take 5 smartActions\<rparr>)"

definition emailClick :: activity where
  "emailClick =
     \<lparr>act_type = ''email_click'', act_date = Some (100 * msPerDay), act_dealId = ''deal_7'',
      act_url = None, act_debrief = None, act_summary = None, act_action = None,
      meta_emailOpened = False, meta_opens = None, meta_linkUrl = Some ''https://example.com/docs'',
      meta_url = None, meta_linkClicked = None\<rparr>"

definition clickedDeal :: deal where
  "clickedDeal =
     \<lparr>deal_id = ''deal_7'', deal_name = ''Pilot'', stage = Some ''proposal'',
      deal_value = 50000, probability = 50, lastActivity = Some (100 * msPerDay),
      stageEntryDate = None, deal_contacts = [''Dana Smith'']\<rparr>"

definition clickMomentum :: momentum where
  "clickMomentum =
     \<lparr>emailOpens = 0, emailClicks = 1, pricingClicks = 0, proposalOpens = 0,
      meetingAccepted = False, hasMomentum = True\<rparr>"

text \<open>The urgency score before rounding, without the momentum boost.\<close>

definition urgencyBase :: "deal \<Rightarrow> stalling \<Rightarrow> ghosting \<Rightarrow> real" where
  "urgencyBase d st gh =
     1 + real_of_int \<lfloor>probability d / 10\<rfloor> +
     (if isStalling st then min (real_of_int (daysInStage st) / 10) 3 else 0) +
     (if isGhosting gh then min (real_of_int (lastContactDays gh) / 7) 2 else 0) +
     (if deal_value d > 200000 then 1 else 0)"

section \<open>Rounding to doubles\<close>

lemma bitlen_nat_bounds:
  "0 < n \<Longrightarrow> 2 ^ (bitlen_nat n - 1) \<le> n \<and> n < 2 ^ bitlen_nat n"
proof (induction n rule: bitlen_nat.induct)
  case (1 n)
  show ?case
  proof (cases "n div 2 = 0")
    case True
    then have "n = 1" using "1.prems" by (auto simp: div_eq_0_iff)
    then show ?thesis by (simp add: bitlen_nat.simps)
  next
    case False
    then have pos: "0 < n div 2" by simp
    let ?b = "bitlen_nat (n div 2)"
    have ih: "2 ^ (?b - 1) \<le> n div 2" "n div 2 < 2 ^ ?b"
      using "1.IH"[OF _ pos] "1.prems" by auto
    have b: "bitlen_nat n = Suc ?b"
      using "1.prems" by (subst bitlen_nat.simps) simp
    have bpos: "0 < ?b"
      using pos by (subst bitlen_nat.simps) simp
    then have "(2::nat) ^ ?b = 2 * 2 ^ (?b - 1)"
      by (cases ?b) simp_all
    then have lo: "2 ^ ?b \<le> n" using ih(1) by linarith
    have hi: "n < 2 * 2 ^ ?b" using ih(2) by linarith
    show ?thesis using lo hi by (simp add: b)
  qed
qed

lemma twoTo_powr: "twoTo e = 2 powr (real_of_int e)"
  by (simp add: twoTo_def powr_real_of_int inverse_eq_divide)

lemma twoTo_pos: "0 < twoTo e"
  by (simp add: twoTo_powr)

lemma twoTo_add: "twoTo (a + b) = twoTo a * twoTo b"
  by (simp add: twoTo_powr powr_add)

lemma twoTo_mono: "a \<le> b \<Longrightarrow> twoTo a \<le> twoTo b"
  by (simp add: twoTo_powr)

lemma twoTo_less_iff: "twoTo a < twoTo b \<longleftrightarrow> a < b"
  by (simp add: twoTo_powr)

lemma binade_bounds:
  assumes "x \<noteq> 0"
  shows "twoTo (binade x) \<le> \<bar>x\<bar> \<and> \<bar>x\<bar> < twoTo (binade x + 1)"
proof (cases "1 \<le> \<bar>x\<bar>")
  case True
  define n where "n = nat \<lfloor>\<bar>x\<bar>\<rfloor>"
  have fpos: "1 \<le> \<lfloor>\<bar>x\<bar>\<rfloor>" using True by linarith
  then have npos: "0 < n" unfolding n_def by linarith
  have rn: "real n = real_of_int \<lfloor>\<bar>x\<bar>\<rfloor>" using fpos by (simp add: n_def)
  have n: "real n \<le> \<bar>x\<bar>" "\<bar>x\<bar> < real n + 1"
    unfolding rn by linarith+
  from bitlen_nat_bounds[OF npos]
  have b: "2 ^ (bitlen_nat n - 1) \<le> n" "n < 2 ^ bitlen_nat n" by auto
  have bl: "0 < bitlen_nat n" using npos by (subst bitlen_nat.simps) simp
  have be: "binade x = int (bitlen_nat n) - 1"
    using True by (simp add: binade_def n_def)
  have "nat (int (bitlen_nat n) - 1) = bitlen_nat n - 1" by simp
  then have e1: "twoTo (binade x) = 2 ^ (bitlen_nat n - 1)"
    using bl by (simp add: be twoTo_def)
  have e2: "twoTo (binade x + 1) = 2 ^ bitlen_nat n"
    by (simp add: be twoTo_def)
  have "(2::real) ^ (bitlen_nat n - 1) \<le> real n"
    using of_nat_mono[OF b(1), where 'a = real] by simp
  then have lo: "twoTo (binade x) \<le> \<bar>x\<bar>" unfolding e1 using n(1) by linarith
  have "Suc n \<le> 2 ^ bitlen_nat n" using b(2) by simp
  then have "real n + 1 \<le> (2::real) ^ bitlen_nat n"
    using of_nat_mono[of "Suc n" "2 ^ bitlen_nat n", where 'a = real] by simp
  then have hi: "\<bar>x\<bar> < twoTo (binade x + 1)" unfolding e2 using n(2) by linarith
  show ?thesis using lo hi by simp
next
  case False
  then have small: "\<bar>x\<bar> < 1" by simp
  have xpos: "0 < \<bar>x\<bar>" using assms by simp
  define y where "y = 1 / \<bar>x\<bar>"
  have y1: "1 < y" using small xpos by (simp add: y_def)
  define n where "n = nat \<lceil>y\<rceil>"
  have c2: "2 \<le> \<lceil>y\<rceil>" using y1 by linarith
  then have n2: "2 \<le> n" unfolding n_def by linarith
  have rn: "real n = real_of_int \<lceil>y\<rceil>" using c2 by (simp add: n_def)
  have n: "y \<le> real n" "real n - 1 < y"
    unfolding rn by linarith+
  define k where "k = bitlen_nat (n - 1)"
  have n1: "0 < n - 1" using n2 by simp
  from bitlen_nat_bounds[OF n1]
  have b: "2 ^ (k - 1) \<le> n - 1" "n - 1 < 2 ^ k" by (auto simp: k_def)
  have kpos: "0 < k" unfolding k_def using n1 by (subst bitlen_nat.simps) simp
  have be: "binade x = - int k"
    using False by (simp add: binade_def k_def n_def y_def)
  have e1: "twoTo (binade x) = 1 / 2 ^ k"
    using kpos by (simp add: be twoTo_def)
  have e2: "twoTo (binade x + 1) = 1 / 2 ^ (k - 1)"
  proof (cases "k = 1")
    case True
    then show ?thesis by (simp add: be twoTo_def)
  next
    case False
    then have k1: "1 < k" using kpos by simp
    then have "nat (int k - 1) = k - 1" by simp
    then show ?thesis using k1 by (simp add: be twoTo_def)
  qed
  have "n \<le> 2 ^ k" using b(2) n2 by simp
  then have "real n \<le> (2::real) ^ k"
    using of_nat_mono[of n "2 ^ k", where 'a = real] by simp
  then have yk: "y \<le> 2 ^ k" using n(1) by linarith
  have lo: "twoTo (binade x) \<le> \<bar>x\<bar>"
  proof -
    have "1 / \<bar>x\<bar> \<le> 2 ^ k" using yk by (simp add: y_def)
    then have "1 \<le> 2 ^ k * \<bar>x\<bar>" using xpos by (simp add: field_simps)
    then show ?thesis unfolding e1 by (simp add: field_simps)
  qed
  have "(2::real) ^ (k - 1) \<le> real (n - 1)"
    using of_nat_mono[OF b(1), where 'a = real] by simp
  moreover have "real (n - 1) = real n - 1" using n2 by (simp add: of_nat_diff)
  ultimately have ky: "2 ^ (k - 1) < y" using n(2) by linarith
  have hi: "\<bar>x\<bar> < twoTo (binade x + 1)"
  proof -
    have "2 ^ (k - 1) < 1 / \<bar>x\<bar>" using ky by (simp add: y_def)
    then have "2 ^ (k - 1) * \<bar>x\<bar> < 1" using xpos by (simp add: field_simps)
    then show ?thesis unfolding e2 by (simp add: field_simps)
  qed
  show ?thesis using lo hi by simp
qed

lemma roundHalfEven_error: "\<bar>real_of_int (roundHalfEven y) - y\<bar> \<le> 1 / 2"
proof -
  have f: "real_of_int \<lfloor>y\<rfloor> \<le> y" "y < real_of_int \<lfloor>y\<rfloor> + 1" by linarith+
  show ?thesis
    unfolding roundHalfEven_def Let_def using f by (simp split: if_splits)
qed

lemma roundHalfEven_nonneg: "0 \<le> y \<Longrightarrow> 0 \<le> roundHalfEven y"
proof -
  assume "0 \<le> y"
  then have "0 \<le> \<lfloor>y\<rfloor>" by simp
  then show ?thesis unfolding roundHalfEven_def Let_def by simp
qed

text \<open>Rounding a number in the normal range changes it by at most half a unit in the last
  place, which is at most the number times \<open>2^-53\<close>.\<close>

lemma fl_error:
  assumes "twoTo (- 1022) \<le> \<bar>x\<bar>"
  shows "\<bar>fl x - x\<bar> \<le> \<bar>x\<bar> / 2 ^ 53"
proof -
  have x0: "x \<noteq> 0" using assms twoTo_pos[of "- 1022"] by auto
  have "twoTo (- 1022) < twoTo (binade x + 1)"
    using assms binade_bounds[OF x0] by linarith
  then have bn: "- 1022 \<le> binade x" by (simp add: twoTo_less_iff)
  define e where "e = binade x - 52"
  have e: "max (binade x - 52) (- 1074) = e" using bn by (simp add: e_def)
  define m where "m = roundHalfEven (\<bar>x\<bar> / twoTo e)"
  have flx: "fl x = sgn x * real_of_int m * twoTo e"
    using x0 by (simp add: fl_def Let_def e m_def)
  have "fl x - x = sgn x * (real_of_int m * twoTo e - \<bar>x\<bar>)"
    by (simp add: flx algebra_simps sgn_if)
  then have "\<bar>fl x - x\<bar> = \<bar>real_of_int m * twoTo e - \<bar>x\<bar>\<bar>"
    using x0 by (simp add: abs_mult sgn_if)
  also have "\<dots> = twoTo e * \<bar>real_of_int m - \<bar>x\<bar> / twoTo e\<bar>"
  proof -
    have "real_of_int m * twoTo e - \<bar>x\<bar> = twoTo e * (real_of_int m - \<bar>x\<bar> / twoTo e)"
      using twoTo_pos[of e] by (simp add: field_simps)
    then show ?thesis using twoTo_pos[of e] by (simp add: abs_mult)
  qed
  also have "\<dots> \<le> twoTo e * (1 / 2)"
    using roundHalfEven_error[of "\<bar>x\<bar> / twoTo e"] twoTo_pos[of e]
    by (simp add: m_def)
  also have "twoTo e * (1 / 2) = twoTo (binade x) / 2 ^ 53"
  proof -
    have "twoTo (binade x) = twoTo e * twoTo 52"
      unfolding e_def by (simp flip: twoTo_add)
    then show ?thesis by (simp add: twoTo_def)
  qed
  also have "\<dots> \<le> \<bar>x\<bar> / 2 ^ 53"
    using binade_bounds[OF x0] by (simp add: divide_right_mono)
  finally show ?thesis .
qed

lemma fl_nonneg:
  assumes "0 \<le> x"
  shows "0 \<le> fl x"
proof (cases "x = 0")
  case True
  then show ?thesis by (simp add: fl_def)
next
  case False
  define e where "e = max (binade x - 52) (- 1074)"
  have "0 \<le> roundHalfEven (\<bar>x\<bar> / twoTo e)"
    using twoTo_pos[of e] by (intro roundHalfEven_nonneg) simp
  then have "0 \<le> real_of_int (roundHalfEven (\<bar>x\<bar> / twoTo e)) * twoTo e"
    using twoTo_pos[of e] by simp
  then show ?thesis
    using False assms by (simp add: fl_def Let_def e_def sgn_if)
qed

text \<open>
  The doubles of the literals 0.02, 0.03, 0.04, 0.01, 0.005, 1.2, 0.048, 0.548, 0.652,
  0.7, 0.9 and 0.95 (written as the fractions the simplifier turns the decimals into), and the sums
  and products of \<^verbatim>\<open>updateRelationshipStrength\<close>.
\<close>

lemma fl_literals:
  "fl (1 / 50) = 5764607523034235 / 2 ^ 58"
  "fl (3 / 100) = 1080863910568919 / 2 ^ 55"
  "fl (1 / 25) = 5764607523034235 / 2 ^ 57"
  "fl (1 / 100) = 5764607523034235 / 2 ^ 59"
  "fl (1 / 200) = 5764607523034235 / 2 ^ 60"
  "fl (6 / 5) = 5404319552844595 / 2 ^ 52"
  "fl (6 / 125) = 3458764513820541 / 2 ^ 56"
  "fl (137 / 250) = 308496574474879 / 2 ^ 49"
  "fl (163 / 250) = 5872693914091127 / 2 ^ 53"
  "fl (7 / 10) = 3152519739159347 / 2 ^ 52"
  "fl (9 / 10) = 8106479329266893 / 2 ^ 53"
  "fl (19 / 20) = 4278419646001971 / 2 ^ 52"
  by (simp_all add: fl_def binade_def bitlen_nat.simps twoTo_def roundHalfEven_def Let_def)

lemma increments:
  "dadd (fl (1 / 50)) (fl (3 / 100)) = 3602879701896397 / 2 ^ 56"
  "dadd (fl (1 / 50)) 0 = 5764607523034235 / 2 ^ 58"
  "dmul (dadd (fl (1 / 50)) (fl (3 / 100))) (fl (6 / 5)) = 1080863910568919 / 2 ^ 54"
  "dmul (dadd (fl (1 / 50)) 0) (fl (6 / 5)) = 3458764513820541 / 2 ^ 57"
  "dmul (fl (1 / 25)) (fl (6 / 5)) = 3458764513820541 / 2 ^ 56"
  "dmul (fl (1 / 100)) (fl (6 / 5)) = 3458764513820541 / 2 ^ 58"
  "dmul (fl (1 / 200)) (fl (6 / 5)) = 3458764513820541 / 2 ^ 59"
  by (simp_all add: dadd_def dmul_def fl_literals)
     (simp_all add: fl_def binade_def bitlen_nat.simps twoTo_def roundHalfEven_def Let_def)

lemma increase_range: "1 / 250 \<le> increase t md \<and> increase t md \<le> 1 / 10"
  apply (simp add: increase_def Let_def dadd_def dmul_def fl_literals)
  apply (simp add: fl_def binade_def bitlen_nat.simps twoTo_def roundHalfEven_def Let_def)
  done

lemma increase_pos: "0 < increase t md"
  using increase_range[of t md] by linarith

section \<open>Influence scores\<close>

lemma roleScore_range: "0 \<le> roleScore ttl \<and> roleScore ttl \<le> 30"
  by (simp add: roleScore_def roleScores_def)

lemma Math_round_nonneg: "0 \<le> x \<Longrightarrow> 0 \<le> Math_round x"
  by (simp add: Math_round_def)

lemma find_map_node_update:
  "find (\<lambda>n. node_id n = cid)
     (map (\<lambda>n. if P n then n\<lparr>influenceScore := f n\<rparr> else n) ns) =
   map_option (\<lambda>n. if P n then n\<lparr>influenceScore := f n\<rparr> else n)
     (find (\<lambda>n. node_id n = cid) ns)"
  by (induction ns) auto

lemma calculateContactInfluence_range:
  "0 \<le> calculateContactInfluence now s cid \<and> calculateContactInfluence now s cid \<le> 100"
proof (cases "find (\<lambda>n. node_id n = cid) (nodes s)")
  case None
  then show ?thesis by (simp add: calculateContactInfluence_def)
next
  case (Some contact)
  have r: "0 \<le> roleScore t" for t using roleScore_range by blast
  show ?thesis
    using Some
    by (auto simp: calculateContactInfluence_def Let_def intro!: Math_round_nonneg add_nonneg_nonneg r)
qed

lemma calculateContactInfluence_rescored:
  "calculateContactInfluence now (calculateInfluenceScores now' s) cid =
   calculateContactInfluence now s cid"
  by (cases "find (\<lambda>n. node_id n = cid) (nodes s)")
     (simp_all add: calculateContactInfluence_def calculateInfluenceScores_def
        find_map_node_update dealEdges_def strongRelationships_def recentInteractions_def
        connections_def)

lemma roleScore_cases:
  "roleScore t =
     (if includes_str t ''ceo'' then 30
      else if includes_str t ''cto'' then 25
      else if includes_str t ''cfo'' then 25
      else if includes_str t ''vp'' then 20
      else if includes_str t ''director'' then 15
      else if includes_str t ''manager'' then 10
      else if includes_str t ''other'' then 5
      else 0)"
  by (simp add: roleScore_def roleScores_def)

lemma roleScore_CTO: "roleScore (toLowerCase ''CTO'') = 25"
  by (simp add: roleScore_cases toLowerCase_def toLowerChar_def)

lemma roleScore_Manager: "roleScore (toLowerCase ''Manager'') = 10"
  by (simp add: roleScore_cases toLowerCase_def toLowerChar_def)

lemma roleScore_Engineer: "roleScore (toLowerCase ''Software Engineer'') = 0"
  by (simp add: roleScore_cases toLowerCase_def toLowerChar_def)

lemma calculateInfluenceScores_idem:
  "calculateInfluenceScores now (calculateInfluenceScores now s) =
   calculateInfluenceScores now s"
proof -
  let ?f = "\<lambda>n. if node_type n = ''contact''
                 then n\<lparr>influenceScore := calculateContactInfluence now s (node_id n)\<rparr>
                 else n"
  have "calculateInfluenceScores now (calculateInfluenceScores now s) =
        (calculateInfluenceScores now s)
          \<lparr>nodes := map ?f (nodes (calculateInfluenceScores now s))\<rparr>"
    by (subst calculateInfluenceScores_def) (simp only: calculateContactInfluence_rescored)
  also have "\<dots> = calculateInfluenceScores now s"
    by (simp add: calculateInfluenceScores_def)
  finally show ?thesis .
qed

text \<open>
  Claim C1. For every contact id the score of \<open>calculateContactInfluence\<close> is an integer
  between 0 and 100; \<open>calculateInfluenceScores\<close> writes exactly that score into every
  contact node; the score does not depend on the scores stored before, so computing it
  again on the same nodes, edges, interactions and clock gives the same score, and a
  second \<open>calculateInfluenceScores\<close> changes nothing.
\<close>

theorem influence_score_bounded_deterministic:
  "0 \<le> calculateContactInfluence now s cid \<and>
   calculateContactInfluence now s cid \<le> 100 \<and>
   (\<forall>n \<in> set (nodes (calculateInfluenceScores now s)).
      node_type n = ''contact'' \<longrightarrow>
        influenceScore n = calculateContactInfluence now s (node_id n) \<and>
        0 \<le> influenceScore n \<and> influenceScore n \<le> 100) \<and>
   calculateContactInfluence now (calculateInfluenceScores now s) cid =
     calculateContactInfluence now s cid \<and>
   calculateInfluenceScores now (calculateInfluenceScores now s) =
     calculateInfluenceScores now s"
proof -
  have written: "\<forall>n \<in> set (nodes (calculateInfluenceScores now s)).
      node_type n = ''contact'' \<longrightarrow>
        influenceScore n = calculateContactInfluence now s (node_id n) \<and>
        0 \<le> influenceScore n \<and> influenceScore n \<le> 100"
    using calculateContactInfluence_range
    by (auto simp: calculateInfluenceScores_def)
  show ?thesis
    using calculateContactInfluence_range written calculateInfluenceScores_idem
      calculateContactInfluence_rescored
    by blast
qed

theorem influence_score_bounded_deterministic_witness:
  "alice\<lparr>influenceScore := 25\<rparr>
     \<in> set (nodes (calculateInfluenceScores 0 \<lparr>nodes = [alice, acme], edges = [], interactions = []\<rparr>)) \<and>
   node_type (alice\<lparr>influenceScore := 25\<rparr>) = ''contact'' \<and>
   calculateContactInfluence 0 \<lparr>nodes = [alice, acme], edges = [], interactions = []\<rparr> ''alice'' = 25 \<and>
   influenceScore (alice\<lparr>influenceScore := 25\<rparr>) =
     calculateContactInfluence 0 \<lparr>nodes = [alice, acme], edges = [], interactions = []\<rparr> ''alice''"
proof -
  have fields: "node_type alice = ''contact''" "node_id alice = ''alice''"
    by (simp_all add: alice_def)
  have score: "calculateContactInfluence 0
      \<lparr>nodes = [alice, acme], edges = [], interactions = []\<rparr> ''alice'' = 25"
    by (simp add: calculateContactInfluence_def Let_def alice_def roleScore_CTO dealEdges_def
        strongRelationships_def recentInteractions_def connections_def Math_round_def)
  have mem: "alice\<lparr>influenceScore := 25\<rparr>
      \<in> set (nodes (calculateInfluenceScores 0
            \<lparr>nodes = [alice, acme], edges = [], interactions = []\<rparr>))"
    by (simp add: calculateInfluenceScores_def score fields)
  have ty: "node_type (alice\<lparr>influenceScore := 25\<rparr>) = ''contact''"
    by (simp add: fields)
  from influence_score_bounded_deterministic
    [of 0 "\<lparr>nodes = [alice, acme], edges = [], interactions = []\<rparr>" "''alice''"]
  have "influenceScore (alice\<lparr>influenceScore := 25\<rparr>) =
      calculateContactInfluence 0 \<lparr>nodes = [alice, acme], edges = [], interactions = []\<rparr>
        (node_id (alice\<lparr>influenceScore := 25\<rparr>))"
    using mem ty by blast
  then show ?thesis
    using mem ty score by (simp add: fields)
qed

text \<open>
  Claim C6. The role component is the points of the first key of \<open>roleScores\<close> that the
  lowercased title includes (\<open>roleScore_cases\<close>; a CTO gets 25, a Manager 10). The claim
  gives 5 points to a title with no keyword; the loop tests the key \<^verbatim>\<open>'other'\<close> like every
  other key, so a title that matches nothing -- ``Software Engineer'' -- gets 0, and the
  whole score of such a contact with no edges and no interactions is 0.
\<close>

theorem role_score_without_keyword_is_zero:
  "roleScore (toLowerCase ''Software Engineer'') = 0 \<and>
   calculateContactInfluence now \<lparr>nodes = [engineer], edges = [], interactions = []\<rparr> ''c1'' = 0"
  by (simp add: calculateContactInfluence_def Let_def engineer_def roleScore_Engineer dealEdges_def
      strongRelationships_def recentInteractions_def connections_def Math_round_def)

lemma edges_trackInteraction:
  "edges (snd (trackInteraction now s cid t md)) =
   map (\<lambda>e. if touches cid e then strengthen now t md e else e) (edges s)"
  by (simp add: trackInteraction_def Let_def calculateInfluenceScores_def
      updateRelationshipStrength_def)

lemma strengthen_same:
  "edge_id (strengthen now t md e) = edge_id e \<and> source (strengthen now t md e) = source e \<and>
   target (strengthen now t md e) = target e \<and> edge_type (strengthen now t md e) = edge_type e \<and>
   confirmed (strengthen now t md e) = confirmed e"
  by (simp add: strengthen_def)

lemma list_all2_map_same:
  "list_all2 P xs (map f xs) \<longleftrightarrow> (\<forall>x \<in> set xs. P x (f x))"
  by (induction xs) auto

text \<open>
  A rounded sum of a strength in [0, 1] and an increment is within \<open>2^-52\<close> of the exact
  sum, and not below the strength.
\<close>

lemma fl_sum_error:
  assumes "0 \<le> s" "s \<le> 1" "1 / 250 \<le> c" "c \<le> 1 / 10"
  shows "\<bar>fl (s + c) - (s + c)\<bar> \<le> 11 / (10 * 2 ^ 53)"
proof -
  have "twoTo (- 1022) \<le> twoTo (- 8)" by (rule twoTo_mono) simp
  also have "\<dots> \<le> \<bar>s + c\<bar>" using assms by (simp add: twoTo_def)
  finally have "\<bar>fl (s + c) - (s + c)\<bar> \<le> \<bar>s + c\<bar> / 2 ^ 53" by (rule fl_error)
  also have "\<dots> \<le> (11 / 10) / 2 ^ 53"
    using assms by (intro divide_right_mono) simp_all
  finally show ?thesis by simp
qed

lemma strengthen_range:
  assumes "0 \<le> strength e" "strength e \<le> 1"
  shows "strength e \<le> strength (strengthen now t md e) \<and>
      0 \<le> strength (strengthen now t md e) \<and> strength (strengthen now t md e) \<le> 1"
proof -
  have c: "1 / 250 \<le> increase t md" "increase t md \<le> 1 / 10"
    using increase_range[of t md] by simp_all
  have "\<bar>fl (strength e + increase t md) - (strength e + increase t md)\<bar> \<le> 11 / (10 * 2 ^ 53)"
    by (rule fl_sum_error[OF assms c])
  moreover have "11 / (10 * 2 ^ 53) \<le> (1 / 250 :: real)" by simp
  ultimately have "strength e \<le> fl (strength e + increase t md)"
    using c(1) by linarith
  then show ?thesis
    using assms by (simp add: strengthen_def dadd_def min_def)
qed

section \<open>Relationship strength\<close>

lemma increase_completed_meeting:
  "md_completed md = Some True \<Longrightarrow> increase ''meeting'' md = fl 0.048"
  by (simp add: increase_def Let_def notFalse_def increments) (simp add: fl_literals)

lemma fl_0048_error: "\<bar>fl 0.048 - 0.048\<bar> \<le> 1 / 2 ^ 56"
  by (simp add: fl_literals)

lemma meeting_close_to_exact:
  assumes "0 \<le> s" "s \<le> 1"
  shows "\<bar>min (fl (s + fl 0.048)) 1 - min (s + 0.048) 1\<bar> \<le> 1 / 2 ^ 52"
proof -
  have c: "1 / 250 \<le> fl 0.048" "fl 0.048 \<le> 1 / 10"
    by (simp_all add: fl_literals)
  have a: "\<bar>fl (s + fl 0.048) - (s + fl 0.048)\<bar> \<le> 11 / (10 * 2 ^ 53)"
    by (rule fl_sum_error[OF assms c])
  have "\<bar>min (fl (s + fl 0.048)) 1 - min (s + 0.048) 1\<bar> \<le> \<bar>fl (s + fl 0.048) - (s + 0.048)\<bar>"
    by (simp add: min_def abs_if)
  also have "\<dots> \<le> \<bar>fl (s + fl 0.048) - (s + fl 0.048)\<bar> + \<bar>fl 0.048 - 0.048\<bar>"
    by linarith
  also have "\<dots> \<le> 11 / (10 * 2 ^ 53) + 1 / 2 ^ 56"
    using a fl_0048_error by linarith
  also have "\<dots> \<le> 1 / 2 ^ 52" by simp
  finally show ?thesis .
qed

lemma meeting_from_half: "min (fl (0.5 + fl 0.048)) 1 = fl 0.548"
  by (simp add: fl_literals)
     (simp add: fl_def binade_def bitlen_nat.simps twoTo_def roundHalfEven_def Let_def)

lemma meeting_from_0652: "min (fl (fl 0.652 + fl 0.048)) 1 = 6305039478318695 / 2 ^ 53"
  by (simp add: fl_literals)
     (simp add: fl_def binade_def bitlen_nat.simps twoTo_def roundHalfEven_def Let_def)

lemma difference_from_0652: "fl (6305039478318695 / 2 ^ 53 - fl 0.652) = 27021597764223 / 2 ^ 49"
  by (simp add: fl_literals)
     (simp add: fl_def binade_def bitlen_nat.simps twoTo_def roundHalfEven_def Let_def)

text \<open>
  Claim C7, as the code has it. The increment of a completed meeting is the product of
  the doubles 0.04 and 1.2, which is the double 0.048. \<open>trackInteraction\<close> of a completed
  meeting sets the strength of every non-structural edge that touches the contact to the
  rounded sum of the strength and that double, capped at 1, and leaves every other
  strength as it was. For a strength in [0, 1] the new strength is within \<open>2^-52\<close> of
  \<open>min (strength + 0.048) 1\<close>; it need not be equal to it.
\<close>

theorem completed_meeting_adds_rounded_0048:
  assumes "md_completed md = Some True"
  shows "dmul (fl 0.04) (fl 1.2) = fl 0.048 \<and>
     list_all2
       (\<lambda>e e'. strength e' =
                 (if touches cid e then min (fl (strength e + fl 0.048)) 1 else strength e))
       (edges s) (edges (snd (trackInteraction now s cid ''meeting'' md))) \<and>
     list_all2
       (\<lambda>e e'. touches cid e \<and> 0 \<le> strength e \<and> strength e \<le> 1 \<longrightarrow>
                 \<bar>strength e' - min (strength e + 0.048) 1\<bar> \<le> 1 / 2 ^ 52)
       (edges s) (edges (snd (trackInteraction now s cid ''meeting'' md)))"
proof (intro conjI)
  show "dmul (fl 0.04) (fl 1.2) = fl 0.048"
    by (simp add: increments) (simp add: fl_literals)
  have new: "strength (strengthen now ''meeting'' md e) = min (fl (strength e + fl 0.048)) 1" for e
    by (simp add: strengthen_def dadd_def increase_completed_meeting[OF assms])
  show "list_all2
       (\<lambda>e e'. strength e' =
                 (if touches cid e then min (fl (strength e + fl 0.048)) 1 else strength e))
       (edges s) (edges (snd (trackInteraction now s cid ''meeting'' md)))"
    unfolding edges_trackInteraction list_all2_map_same
    using new by simp
  show "list_all2
       (\<lambda>e e'. touches cid e \<and> 0 \<le> strength e \<and> strength e \<le> 1 \<longrightarrow>
                 \<bar>strength e' - min (strength e + 0.048) 1\<bar> \<le> 1 / 2 ^ 52)
       (edges s) (edges (snd (trackInteraction now s cid ''meeting'' md)))"
    unfolding edges_trackInteraction list_all2_map_same
  proof (intro ballI impI)
    fix e
    assume "e \<in> set (edges s)"
      and h: "touches cid e \<and> 0 \<le> strength e \<and> strength e \<le> 1"
    then show "\<bar>strength (if touches cid e then strengthen now ''meeting'' md e else e) -
        min (strength e + 0.048) 1\<bar> \<le> 1 / 2 ^ 52"
      using meeting_close_to_exact[of "strength e"] by (simp add: new)
  qed
qed

text \<open>
  The scenario of the claim: one non-structural edge of strength 0.5 ends at the double
  0.548.
\<close>

theorem completed_meeting_adds_rounded_0048_witness:
  "md_completed completedMeeting = Some True \<and>
   touches ''bob'' bob_reports_to_alice \<and>
   strength bob_reports_to_alice = 0.5 \<and>
   map strength (edges (snd (trackInteraction 0
       \<lparr>nodes = [alice, bob], edges = [bob_reports_to_alice], interactions = []\<rparr>
       ''bob'' ''meeting'' completedMeeting))) = [fl 0.548] \<and>
   \<bar>fl 0.548 - min (0.5 + 0.048) 1\<bar> \<le> 1 / 2 ^ 52"
proof -
  have c: "md_completed completedMeeting = Some True"
    by (simp add: completedMeeting_def)
  have t: "touches ''bob'' bob_reports_to_alice"
    by (simp add: touches_def bob_reports_to_alice_def)
  have s: "strength bob_reports_to_alice = 0.5"
    by (simp add: bob_reports_to_alice_def)
  from completed_meeting_adds_rounded_0048[OF c, of "''bob''"
      "\<lparr>nodes = [alice, bob], edges = [bob_reports_to_alice], interactions = []\<rparr>" 0]
  show ?thesis
    using c t s meeting_from_half by (auto simp: list_all2_Cons1)
qed

text \<open>
  Against claim C7 as stated: an edge of strength 0.652 ends at 0.7000000000000001,
  which is not the double 0.7; the strength has grown by more than 0.048, and the
  difference that JavaScript computes from the two strengths is 0.04800000000000004, not
  the double 0.048.
\<close>

theorem meeting_at_0652_adds_more_than_0048:
  "strength bob_knows_alice = fl 0.652 \<and>
   touches ''bob'' bob_knows_alice \<and>
   map strength (edges (snd (trackInteraction 0
       \<lparr>nodes = [alice, bob], edges = [bob_knows_alice], interactions = []\<rparr>
       ''bob'' ''meeting'' completedMeeting))) = [6305039478318695 / 2 ^ 53] \<and>
   6305039478318695 / 2 ^ 53 \<noteq> fl 0.7 \<and>
   6305039478318695 / 2 ^ 53 - fl 0.652 > 0.048 \<and>
   fl (6305039478318695 / 2 ^ 53 - fl 0.652) \<noteq> fl 0.048"
proof -
  have c: "md_completed completedMeeting = Some True"
    by (simp add: completedMeeting_def)
  have t: "touches ''bob'' bob_knows_alice"
    by (simp add: touches_def bob_knows_alice_def)
  have s: "strength bob_knows_alice = fl 0.652"
    by (simp add: bob_knows_alice_def)
  have new: "strength (strengthen 0 ''meeting'' completedMeeting bob_knows_alice) =
      6305039478318695 / 2 ^ 53"
    using meeting_from_0652
    by (simp add: strengthen_def dadd_def increase_completed_meeting[OF c] s)
  have e: "map strength (edges (snd (trackInteraction 0
       \<lparr>nodes = [alice, bob], edges = [bob_knows_alice], interactions = []\<rparr>
       ''bob'' ''meeting'' completedMeeting))) = [6305039478318695 / 2 ^ 53]"
    unfolding edges_trackInteraction using t new by simp
  have d: "fl (6305039478318695 / 2 ^ 53 - fl 0.652) \<noteq> fl 0.048"
    unfolding difference_from_0652 by (simp add: fl_literals)
  show ?thesis
    using t s e d by (simp add: fl_literals)
qed

section \<open>Stalling deals\<close>

lemma avgDuration_table:
  "avgDuration (Some ''new'') = 3" "avgDuration (Some ''contacted'') = 5"
  "avgDuration (Some ''qualified'') = 7" "avgDuration (Some ''proposal'') = 10"
  "avgDuration (Some ''negotiation'') = 14"
  by (simp_all add: avgDuration_def avgStageDurations_def)

lemma calculateDaysInStage_lastActivity:
  assumes "stage d = Some st" "st \<noteq> []" "st \<noteq> ''closed''" "stageEntryDate d = None"
    "lastActivity d = Some t" "k * msPerDay \<le> now - t" "now - t < (k + 1) * msPerDay"
  shows "calculateDaysInStage now d = k"
proof -
  have "\<lfloor>real_of_int (now - t) / real_of_int msPerDay\<rfloor> = (now - t) div msPerDay"
    by (rule floor_divide_of_int_eq)
  also have "\<dots> = k"
  proof (rule int_div_pos_eq[where r = "now - t - k * msPerDay"])
    show "now - t = msPerDay * k + (now - t - k * msPerDay)" by simp
    show "0 \<le> now - t - k * msPerDay" using assms(6) by simp
    show "now - t - k * msPerDay < msPerDay" using assms(7) by (simp add: algebra_simps)
  qed
  finally show ?thesis
    using assms(1-5) by (simp add: calculateDaysInStage_def noStage_def)
qed

text \<open>
  Claim C8. For a deal in one of the stages new, contacted, qualified, proposal,
  negotiation, \<open>detectStalling\<close> reports the days of \<open>calculateDaysInStage\<close> and the
  threshold 1.5 times the average of the stage (3, 5, 7, 10, 14), and \<open>isStalling\<close> holds
  exactly when the days exceed the threshold. A deal in stage qualified with no stage
  entry date whose last activity was 12 days ago has 12 days in stage, threshold 10.5 and
  is stalling.
\<close>

theorem stalling_iff_days_exceed_threshold:
  "(stage d = Some st \<and>
    (st, avg) \<in> set [(''new'', 3), (''contacted'', 5), (''qualified'', 7),
                        (''proposal'', 10), (''negotiation'', 14)] \<longrightarrow>
      daysInStage (detectStalling now d) = calculateDaysInStage now d \<and>
      threshold (detectStalling now d) = 1.5 * avg \<and>
      (isStalling (detectStalling now d) \<longleftrightarrow>
         real_of_int (calculateDaysInStage now d) > 1.5 * avg)) \<and>
   (stage d = Some ''qualified'' \<and> stageEntryDate d = None \<and> lastActivity d = Some t \<and>
    12 * msPerDay \<le> now - t \<and> now - t < 13 * msPerDay \<longrightarrow>
      daysInStage (detectStalling now d) = 12 \<and>
      threshold (detectStalling now d) = 10.5 \<and>
      isStalling (detectStalling now d))"
proof (rule conjI; rule impI)
  assume "stage d = Some st \<and>
    (st, avg) \<in> set [(''new'', 3), (''contacted'', 5), (''qualified'', 7),
                        (''proposal'', 10), (''negotiation'', 14)]"
  then have "stage d = Some st" and "avgDuration (Some st) = avg"
    using avgDuration_table by auto
  then show "daysInStage (detectStalling now d) = calculateDaysInStage now d \<and>
      threshold (detectStalling now d) = 1.5 * avg \<and>
      (isStalling (detectStalling now d) \<longleftrightarrow>
         real_of_int (calculateDaysInStage now d) > 1.5 * avg)"
    by (simp add: detectStalling_def Let_def mult.commute)
next
  assume a: "stage d = Some ''qualified'' \<and> stageEntryDate d = None \<and> lastActivity d = Some t \<and>
    12 * msPerDay \<le> now - t \<and> now - t < 13 * msPerDay"
  then have days: "calculateDaysInStage now d = 12"
    using calculateDaysInStage_lastActivity[of d "''qualified''" t 12 now] by simp
  show "daysInStage (detectStalling now d) = 12 \<and>
      threshold (detectStalling now d) = 10.5 \<and>
      isStalling (detectStalling now d)"
    using a by (simp add: detectStalling_def Let_def days avgDuration_table)
qed

theorem stalling_iff_days_exceed_threshold_witness:
  "stage qualifiedDeal = Some ''qualified'' \<and> stageEntryDate qualifiedDeal = None \<and>
   lastActivity qualifiedDeal = Some (100 * msPerDay) \<and>
   12 * msPerDay \<le> 112 * msPerDay - 100 * msPerDay \<and>
   112 * msPerDay - 100 * msPerDay < 13 * msPerDay \<and>
   (''qualified'', 7) \<in> set [(''new'', 3), (''contacted'', 5), (''qualified'', 7::real),
                        (''proposal'', 10), (''negotiation'', 14)] \<and>
   daysInStage (detectStalling (112 * msPerDay) qualifiedDeal) = 12 \<and>
   threshold (detectStalling (112 * msPerDay) qualifiedDeal) = 10.5 \<and>
   calculateDaysInStage (112 * msPerDay) qualifiedDeal = 12 \<and>
   isStalling (detectStalling (112 * msPerDay) qualifiedDeal)"
proof -
  have h: "stage qualifiedDeal = Some ''qualified''" "stageEntryDate qualifiedDeal = None"
    "lastActivity qualifiedDeal = Some (100 * msPerDay)"
    by (simp_all add: qualifiedDeal_def)
  have r: "12 * msPerDay \<le> 112 * msPerDay - 100 * msPerDay"
    "112 * msPerDay - 100 * msPerDay < 13 * msPerDay"
    by (simp_all add: msPerDay_def)
  from stalling_iff_days_exceed_threshold
    [of qualifiedDeal "''qualified''" 7 "112 * msPerDay" "100 * msPerDay"]
  show ?thesis
    using h r by simp
qed

section \<open>Filtered subgraph\<close>

lemma applyMinInfluence_closed:
  "applyMinInfluence m g = (ns', es') \<Longrightarrow>
   \<forall>e \<in> set es'. source e \<in> node_id ` set ns' \<and> target e \<in> node_id ` set ns'"
  by (cases g) (auto simp: applyMinInfluence_def Let_def)

lemma applyMinInfluence_nodes:
  "applyMinInfluence m (ns, es) = (ns', es') \<Longrightarrow>
   ns' = filter (\<lambda>n. node_type n \<noteq> ''contact'' \<or> real_of_int (influenceScore n) \<ge> m) ns"
  by (auto simp: applyMinInfluence_def Let_def)

lemma getGraphData_minInfluence_closed:
  assumes "filter_minInfluence f = Some m" "m \<noteq> 0" "getGraphData s f = (ns, es)"
  shows "\<forall>e \<in> set es. source e \<in> node_id ` set ns \<and> target e \<in> node_id ` set ns"
  using assms applyMinInfluence_closed
  by (simp add: getGraphData_def Let_def)

text \<open>
  Claim C4. With only \<^verbatim>\<open>accountId\<close> set, \<open>getGraphData\<close> keeps every edge that has one
  endpoint among the account's contacts: on a store where Alice works at Acme and is
  the decision maker for a deal, the filter for Acme returns the nodes Alice and Acme and
  both edges, and the target \<^verbatim>\<open>deal_1\<close> of the second edge is not among the returned nodes.
  (With \<^verbatim>\<open>minInfluence\<close> set, both endpoints of every returned edge are returned nodes:
  \<open>getGraphData_minInfluence_closed\<close>.)
\<close>

theorem account_filter_returns_dangling_edge:
  "getGraphData acmeStore acmeOnly = ([alice, acme], [alice_works_at_acme, alice_decides_deal1]) \<and>
   target alice_decides_deal1 = ''deal_1'' \<and>
   ''deal_1'' \<notin> set (map node_id [alice, acme])"
  by (simp add: getGraphData_def Let_def acmeStore_def acmeOnly_def applyAccountFilter_def
      alice_def acme_def deal1_def alice_works_at_acme_def alice_decides_deal1_def
      del: set_filter)

section \<open>Path search\<close>

lemma neighbors_adjacent: "n \<in> set (neighbors es c) \<Longrightarrow> adjacent es c n"
  by (auto simp: neighbors_def adjacent_def touches_def otherEnd_def)

lemma connecting_path_start: "connecting_path es a a [a]"
  by (simp add: connecting_path_def)

lemma connecting_path_step:
  assumes "connecting_path es a c p" "adjacent es c n"
  shows "connecting_path es a n (p @ [n])"
  using assms by (auto simp: connecting_path_def successively_append_iff)

text \<open>
  Every path the loop returns is a connecting path from the source to the target with at
  most \<open>maxDepth\<close> hops, provided the queue holds such paths to its ids.
\<close>

lemma findPath_loop_sound:
  assumes "\<forall>(c, q) \<in> set queue. connecting_path es a c q \<and> length q \<le> maxDepth + 1"
    and "findPath_loop es targetId maxDepth visited queue = Some p"
  shows "connecting_path es a targetId p \<and> length p \<le> maxDepth + 1"
  using assms
proof (induction es targetId maxDepth visited queue rule: findPath_loop.induct)
  case (1 es targetId maxDepth visited)
  then show ?case by simp
next
  case (2 es targetId maxDepth visited currentId path queue)
  let ?visited' = "insert currentId visited"
  let ?new = "map (\<lambda>neighbor. (neighbor, path @ [neighbor]))
      (filter (\<lambda>neighbor. neighbor \<notin> ?visited') (neighbors es currentId))"
  have head: "connecting_path es a currentId path" "length path \<le> maxDepth + 1"
    using "2.prems"(1) by auto
  have rest: "\<forall>(c, q) \<in> set queue. connecting_path es a c q \<and> length q \<le> maxDepth + 1"
    using "2.prems"(1) by auto
  show ?case
  proof (cases "currentId = targetId")
    case True
    then show ?thesis using "2.prems"(2) head by simp
  next
    case notTarget: False
    show ?thesis
    proof (cases "length path > maxDepth")
      case True
      then show ?thesis
        using "2.IH"(1)[OF notTarget True rest] "2.prems"(2) notTarget by simp
    next
      case shallow: False
      show ?thesis
      proof (cases "currentId \<in> visited")
        case True
        then show ?thesis
          using "2.IH"(2)[OF notTarget shallow True rest] "2.prems"(2) notTarget shallow by simp
      next
        case fresh: False
        have new: "\<forall>(c, q) \<in> set (queue @ ?new).
            connecting_path es a c q \<and> length q \<le> maxDepth + 1"
          using rest shallow connecting_path_step[OF head(1)] neighbors_adjacent[of _ es currentId]
          by auto
        have "findPath_loop es targetId maxDepth ?visited' (queue @ ?new) = Some p"
          using "2.prems"(2) notTarget shallow fresh by simp
        then show ?thesis
          using "2.IH"(3)[OF notTarget shallow fresh new] by simp
      qed
    qed
  qed
qed

lemma findPath_loop_self:
  "findPath_loop es a maxDepth visited ((a, path) # queue) = Some path"
  by simp

text \<open>
  Claim C5. For an id \<open>a\<close> of a node in the store, \<open>findPath s a a maxDepth\<close> is the path
  of that one node. When no connecting path over non-structural edges leads from \<open>a\<close>
  to \<open>b\<close> in at most \<open>maxDepth\<close> hops (a path of at most \<open>maxDepth + 1\<close> ids),
  \<open>findPath s a b maxDepth\<close> is \<open>None\<close>, the model of \<^verbatim>\<open>null\<close>.
\<close>

theorem findPath_self_and_unreachable:
  "(find (\<lambda>n. node_id n = a) (nodes s) = Some n \<longrightarrow>
      findPath s a a maxDepth = Some [Some n]) \<and>
   ((\<nexists>p. connecting_path (edges s) a b p \<and> length p \<le> maxDepth + 1) \<longrightarrow>
      findPath s a b maxDepth = None)"
proof (rule conjI; rule impI)
  assume "find (\<lambda>n. node_id n = a) (nodes s) = Some n"
  then show "findPath s a a maxDepth = Some [Some n]"
    by (simp add: findPath_def)
next
  assume none: "\<nexists>p. connecting_path (edges s) a b p \<and> length p \<le> maxDepth + 1"
  have start: "\<forall>(c, q) \<in> set [(a, [a])].
      connecting_path (edges s) a c q \<and> length q \<le> maxDepth + 1"
    by (simp add: connecting_path_start)
  have "findPath_loop (edges s) b maxDepth {} [(a, [a])] = None"
  proof (cases "findPath_loop (edges s) b maxDepth {} [(a, [a])]")
    case None
    then show ?thesis .
  next
    case (Some p)
    from findPath_loop_sound[OF start Some] none show ?thesis by blast
  qed
  then show "findPath s a b maxDepth = None"
    by (simp add: findPath_def)
qed

lemma no_path_alice_acme:
  "\<nexists>p. connecting_path [alice_works_at_acme] ''alice'' ''acme'' p \<and> length p \<le> 3 + 1"
proof
  assume "\<exists>p. connecting_path [alice_works_at_acme] ''alice'' ''acme'' p \<and> length p \<le> 3 + 1"
  then obtain p where p: "p \<noteq> []" "hd p = ''alice''" "last p = ''acme''"
      "successively (adjacent [alice_works_at_acme]) p"
    by (auto simp: connecting_path_def)
  then obtain x xs where "p = ''alice'' # x # xs"
    by (cases p; cases "tl p") auto
  with p(4) have "adjacent [alice_works_at_acme] ''alice'' x" by simp
  then show False
    by (simp add: adjacent_def alice_works_at_acme_def)
qed

theorem findPath_self_and_unreachable_witness:
  "find (\<lambda>n. node_id n = ''alice'') [alice, acme] = Some alice \<and>
   findPath \<lparr>nodes = [alice, acme], edges = [alice_works_at_acme], interactions = []\<rparr>
     ''alice'' ''alice'' 3 = Some [Some alice] \<and>
   (\<nexists>p. connecting_path [alice_works_at_acme] ''alice'' ''acme'' p \<and> length p \<le> 3 + 1) \<and>
   findPath \<lparr>nodes = [alice, acme], edges = [alice_works_at_acme], interactions = []\<rparr>
     ''alice'' ''acme'' 3 = None"
proof -
  have f: "find (\<lambda>n. node_id n = ''alice'') [alice, acme] = Some alice"
    by (simp add: alice_def)
  from findPath_self_and_unreachable
    [of "''alice''" "\<lparr>nodes = [alice, acme], edges = [alice_works_at_acme], interactions = []\<rparr>"
      alice 3 "''acme''"]
  show ?thesis
    using f no_path_alice_acme by simp
qed

lemma findPath_bob_alice:
  "findPath \<lparr>nodes = [alice, bob], edges = [bob_reports_to_alice], interactions = []\<rparr>
     ''bob'' ''alice'' 3 = Some [Some bob, Some alice]"
  by (simp add: findPath_def neighbors_def touches_def otherEnd_def bob_reports_to_alice_def
      alice_def bob_def)

section \<open>Org chart\<close>

lemma calculateLevels_visited: "cid \<in> visited \<Longrightarrow> calculateLevels h cid visited = Inr 0"
  by (simp add: calculateLevels.simps)

lemma calculateLevels_top:
  "cid \<notin> visited \<Longrightarrow> map_of h cid = Some entry \<Longrightarrow>
   reportsTo entry = None \<or> reportsTo entry = Some [] \<Longrightarrow>
   calculateLevels h cid visited = Inr 0"
  by (auto simp: calculateLevels.simps[of h cid visited])

lemma calculateLevels_manager:
  "cid \<notin> visited \<Longrightarrow> map_of h cid = Some entry \<Longrightarrow>
   reportsTo entry = Some manager \<Longrightarrow> manager \<noteq> [] \<Longrightarrow>
   calculateLevels h cid visited =
     (case calculateLevels h manager (insert cid visited) of
        Inl err \<Rightarrow> Inl err
      | Inr l \<Rightarrow> Inr (l + 1))"
  by (simp add: calculateLevels.simps[of h cid visited])

lemma calculateLevels_bound:
  "calculateLevels h cid visited = Inr l \<Longrightarrow> l \<le> card (fst ` set h - visited)"
proof (induction h cid visited arbitrary: l rule: calculateLevels.induct)
  case (1 h cid visited)
  show ?case
  proof (cases "cid \<in> visited")
    case True
    then show ?thesis using "1.prems" by (simp add: calculateLevels_visited)
  next
    case fresh: False
    show ?thesis
    proof (cases "map_of h cid")
      case None
      then show ?thesis
        using "1.prems" fresh by (simp add: calculateLevels.simps[of h cid visited])
    next
      case (Some entry)
      show ?thesis
      proof (cases "reportsTo entry = None \<or> reportsTo entry = Some []")
        case True
        then show ?thesis
          using "1.prems" calculateLevels_top[OF fresh Some True] by simp
      next
        case False
        then obtain manager where m: "reportsTo entry = Some manager" "manager \<noteq> []"
          by auto
        from "1.prems" calculateLevels_manager[OF fresh Some m]
        obtain l' where l': "calculateLevels h manager (insert cid visited) = Inr l'"
          "l = l' + 1"
          by (auto split: sum.splits)
        have "l' \<le> card (fst ` set h - insert cid visited)"
          by (rule "1.IH"[OF fresh Some m l'(1)])
        moreover have "cid \<in> fst ` set h"
          using Some by (metis map_of_eq_None_iff option.distinct(1))
        then have "fst ` set h - insert cid visited \<subset> fst ` set h - visited"
          using fresh by blast
        then have "card (fst ` set h - insert cid visited) < card (fst ` set h - visited)"
          by (rule psubset_card_mono[rotated]) simp
        ultimately show ?thesis using l'(2) by simp
      qed
    qed
  qed
qed

text \<open>Every reporting pointer of the hierarchy is a key of the hierarchy.\<close>

definition resolved :: "hierarchy \<Rightarrow> bool" where
  "resolved h \<longleftrightarrow>
     (\<forall>k entry manager. map_of h k = Some entry \<longrightarrow> reportsTo entry = Some manager \<longrightarrow>
        map_of h manager \<noteq> None)"

lemma calculateLevels_resolved:
  "resolved h \<Longrightarrow> map_of h cid \<noteq> None \<Longrightarrow> \<exists>l. calculateLevels h cid visited = Inr l"
proof (induction h cid visited rule: calculateLevels.induct)
  case (1 h cid visited)
  show ?case
  proof (cases "cid \<in> visited")
    case True
    then show ?thesis by (simp add: calculateLevels_visited)
  next
    case fresh: False
    from "1.prems"(2) obtain entry where Some: "map_of h cid = Some entry" by auto
    show ?thesis
    proof (cases "reportsTo entry = None \<or> reportsTo entry = Some []")
      case True
      then show ?thesis
        using calculateLevels_top[OF fresh Some True] by simp
    next
      case False
      then obtain manager where m: "reportsTo entry = Some manager" "manager \<noteq> []"
        by auto
      have "map_of h manager \<noteq> None"
        using "1.prems"(1) Some m(1) unfolding resolved_def by blast
      from "1.IH"[OF fresh Some m "1.prems"(1) this]
      obtain l where "calculateLevels h manager (insert cid visited) = Inr l" by blast
      then show ?thesis
        using calculateLevels_manager[OF fresh Some m] by simp
    qed
  qed
qed

lemma map_of_assign: "map_of (assign k v h) = (map_of h)(k \<mapsto> v)"
  by (induction h) (auto simp: fun_eq_iff)

lemma resolved_initHierarchy_aux:
  "(\<forall>k entry. map_of h k = Some entry \<longrightarrow> reportsTo entry = None) \<Longrightarrow>
   \<forall>k entry.
     map_of (fold (\<lambda>c h. assign (node_id c)
                \<lparr>h_contact = c, reportsTo = None, manages = [], level = 0\<rparr> h) cs h) k
       = Some entry \<longrightarrow> reportsTo entry = None"
proof (induction cs arbitrary: h)
  case Nil
  then show ?case by simp
next
  case (Cons c cs)
  show ?case
    unfolding fold_simps
    by (rule Cons.IH) (use Cons.prems in \<open>auto simp: map_of_assign\<close>)
qed

lemma resolved_initHierarchy: "resolved (initHierarchy cs)"
  using resolved_initHierarchy_aux[of "[]" cs]
  by (auto simp: resolved_def initHierarchy_def)

lemma resolved_applyOrgEdge:
  assumes "resolved h" "applyOrgEdge e h = Inr h'"
  shows "resolved h'"
proof -
  consider (r) "edge_type e = ''reports_to''"
    | (m) "edge_type e \<noteq> ''reports_to''" "edge_type e = ''manages''"
    | (o) "edge_type e \<noteq> ''reports_to''" "edge_type e \<noteq> ''manages''"
    by blast
  then show ?thesis
  proof cases
    case r
    with assms(2) obtain src tgt where
      src: "map_of h (source e) = Some src" and
      tgt: "map_of (assign (source e) (src\<lparr>reportsTo := Some (target e)\<rparr>) h) (target e) = Some tgt" and
      h': "h' = assign (source e) (src\<lparr>reportsTo := Some (target e)\<rparr>) h \<or>
           h' = assign (target e) (tgt\<lparr>manages := manages tgt @ [source e]\<rparr>)
                  (assign (source e) (src\<lparr>reportsTo := Some (target e)\<rparr>) h)"
      by (auto simp: applyOrgEdge_def Let_def split: option.splits if_splits)
    from h' show ?thesis
      using assms(1) src tgt unfolding resolved_def
      by (auto simp: map_of_assign split: if_splits)
  next
    case m
    with assms(2) obtain src tgt h1 where
      src: "map_of h (source e) = Some src" and
      h1: "h1 = h \<or> h1 = assign (source e) (src\<lparr>manages := manages src @ [target e]\<rparr>) h" and
      tgt: "map_of h1 (target e) = Some tgt" and
      h': "h' = assign (target e) (tgt\<lparr>reportsTo := Some (source e)\<rparr>) h1"
      by (auto simp: applyOrgEdge_def Let_def split: option.splits if_splits)
    have r1: "resolved h1"
      using h1 assms(1) src unfolding resolved_def
      by (auto simp: map_of_assign split: if_splits)
    have "map_of h1 (source e) \<noteq> None"
      using h1 src by (auto simp: map_of_assign)
    then show ?thesis
      using r1 tgt unfolding resolved_def h'
      by (auto simp: map_of_assign split: if_splits)
  next
    case o
    then show ?thesis using assms by (simp add: applyOrgEdge_def)
  qed
qed

lemma resolved_applyOrgEdges:
  "resolved h \<Longrightarrow> applyOrgEdges es h = Inr h' \<Longrightarrow> resolved h'"
  by (induction es arbitrary: h) (auto split: sum.splits dest: resolved_applyOrgEdge)

lemma withLevels_Inr:
  "withLevels h rest = Inr rest' \<Longrightarrow>
   list_all2 (\<lambda>(k, entry) (k', entry').
       k' = k \<and> entry' = entry\<lparr>level := level entry'\<rparr> \<and>
       calculateLevels h k {} = Inr (level entry'))
     rest rest'"
  by (induction rest arbitrary: rest') (auto split: sum.splits)

lemma withLevels_total:
  "\<forall>(k, entry) \<in> set rest. \<exists>l. calculateLevels h k {} = Inr l \<Longrightarrow>
   \<exists>rest'. withLevels h rest = Inr rest'"
  by (induction rest) (auto split: sum.splits)

lemma calculateLevels_same_pointers:
  "\<forall>k. map_option reportsTo (map_of h' k) = map_option reportsTo (map_of h k) \<Longrightarrow>
   calculateLevels h' cid visited = calculateLevels h cid visited"
proof (induction h cid visited rule: calculateLevels.induct)
  case (1 h cid visited)
  show ?case
  proof (cases "cid \<in> visited")
    case True
    then show ?thesis by (simp add: calculateLevels_visited)
  next
    case fresh: False
    have same: "map_option reportsTo (map_of h' cid) = map_option reportsTo (map_of h cid)"
      using "1.prems" by blast
    show ?thesis
    proof (cases "map_of h cid")
      case None
      then have "map_of h' cid = None" using same by simp
      then show ?thesis
        using None fresh
        by (simp add: calculateLevels.simps[of h cid visited]
            calculateLevels.simps[of h' cid visited])
    next
      case (Some entry)
      then obtain entry' where Some': "map_of h' cid = Some entry'"
        and r: "reportsTo entry' = reportsTo entry"
        using same by (cases "map_of h' cid") auto
      show ?thesis
      proof (cases "reportsTo entry = None \<or> reportsTo entry = Some []")
        case True
        then show ?thesis
          using calculateLevels_top[OF fresh Some True] calculateLevels_top[OF fresh Some'] r
          by simp
      next
        case False
        then obtain manager where m: "reportsTo entry = Some manager" "manager \<noteq> []"
          by auto
        have "calculateLevels h' manager (insert cid visited) =
            calculateLevels h manager (insert cid visited)"
          by (rule "1.IH"[OF fresh Some m "1.prems"])
        then show ?thesis
          using calculateLevels_manager[OF fresh Some m]
            calculateLevels_manager[OF fresh Some' _ m(2)] r m(1)
          by simp
      qed
    qed
  qed
qed

lemma chain_manager:
  assumes "map_of h c = Some entry" "reportsTo entry = Some manager" "manager \<noteq> []"
    and "x \<in> chain h manager"
  shows "x \<in> chain h c"
  using assms(4)
proof induction
  case start
  show ?case by (rule chain.step[OF chain.start assms(1-3)])
next
  case (step y entry' manager')
  then show ?case by (meson chain.step)
qed

lemma calculateLevels_off_chain:
  "x \<notin> chain h cid \<Longrightarrow>
   calculateLevels h cid (insert x visited) = calculateLevels h cid visited"
proof (induction h cid visited rule: calculateLevels.induct)
  case (1 h cid visited)
  have ne: "cid \<noteq> x" using "1.prems" chain.start by blast
  show ?case
  proof (cases "cid \<in> visited")
    case True
    then show ?thesis by (simp add: calculateLevels_visited)
  next
    case fresh: False
    then have fresh': "cid \<notin> insert x visited" using ne by simp
    show ?thesis
    proof (cases "map_of h cid")
      case None
      then show ?thesis
        using fresh fresh'
        by (simp add: calculateLevels.simps[of h cid visited]
            calculateLevels.simps[of h cid "insert x visited"])
    next
      case (Some entry)
      show ?thesis
      proof (cases "reportsTo entry = None \<or> reportsTo entry = Some []")
        case True
        then show ?thesis
          using calculateLevels_top[OF fresh Some True] calculateLevels_top[OF fresh' Some True]
          by simp
      next
        case False
        then obtain manager where m: "reportsTo entry = Some manager" "manager \<noteq> []"
          by auto
        have "x \<notin> chain h manager"
          using "1.prems" chain_manager[OF Some m] by blast
        from "1.IH"[OF fresh Some m this]
        have "calculateLevels h manager (insert cid (insert x visited)) =
            calculateLevels h manager (insert cid visited)"
          by (simp add: insert_commute)
        then show ?thesis
          using calculateLevels_manager[OF fresh Some m]
            calculateLevels_manager[OF fresh' Some m]
          by simp
      qed
    qed
  qed
qed

text \<open>
  Without a cycle through the contact, its level is one more than the level of its
  manager, each computed with a fresh \<open>visited\<close> set.
\<close>

lemma calculateLevels_acyclic:
  assumes "map_of h cid = Some entry" "reportsTo entry = Some manager" "manager \<noteq> []"
    and "cid \<notin> chain h manager"
  shows "calculateLevels h cid {} =
    (case calculateLevels h manager {} of Inl err \<Rightarrow> Inl err | Inr l \<Rightarrow> Inr (l + 1))"
  using calculateLevels_manager[OF _ assms(1-3), of "{}"]
    calculateLevels_off_chain[OF assms(4), of "{}"]
  by simp

lemma list_all2_rightD:
  "list_all2 P xs ys \<Longrightarrow> y \<in> set ys \<Longrightarrow> \<exists>x \<in> set xs. P x y"
  by (induction rule: list_all2_induct) auto

lemma getOrgChart_levels:
  assumes "applyOrgEdges (orgEdges s (getAccountContacts s accId))
             (initHierarchy (getAccountContacts s accId)) = Inr h0"
  shows "\<exists>h. getOrgChart s accId = Inr h \<and> map fst h = map fst h0 \<and>
           (\<forall>(k, entry) \<in> set h.
              calculateLevels h0 k {} = Inr (level entry) \<and> level entry \<le> length h0)"
proof -
  have res: "resolved h0"
    using resolved_applyOrgEdges[OF resolved_initHierarchy assms] .
  have "\<forall>(k, entry) \<in> set h0. \<exists>l. calculateLevels h0 k {} = Inr l"
  proof (clarify)
    fix k entry
    assume "(k, entry) \<in> set h0"
    then have "map_of h0 k \<noteq> None"
      by (metis map_of_eq_None_iff fst_conv image_eqI)
    then show "\<exists>l. calculateLevels h0 k {} = Inr l"
      by (rule calculateLevels_resolved[OF res])
  qed
  then obtain h where h: "withLevels h0 h0 = Inr h"
    using withLevels_total by blast
  have all2: "list_all2 (\<lambda>(k, entry) (k', entry').
       k' = k \<and> entry' = entry\<lparr>level := level entry'\<rparr> \<and>
       calculateLevels h0 k {} = Inr (level entry')) h0 h"
    by (rule withLevels_Inr[OF h])
  have keys: "map fst h = map fst h0"
    using all2 by (induction rule: list_all2_induct) auto
  have lv: "calculateLevels h0 k {} = Inr (level entry) \<and> level entry \<le> length h0"
    if "(k, entry) \<in> set h" for k entry
  proof -
    from list_all2_rightD[OF all2 that]
    have c: "calculateLevels h0 k {} = Inr (level entry)" by auto
    have "level entry \<le> card (fst ` set h0 - {})"
      by (rule calculateLevels_bound[OF c])
    also have "\<dots> \<le> length h0"
      by (simp add: card_image_le[THEN order_trans] card_length)
    finally show ?thesis using c by simp
  qed
  have "getOrgChart s accId = Inr h"
    using assms h by (simp add: getOrgChart_def Let_def)
  then show ?thesis using keys lv by auto
qed

text \<open>
  A reporting cycle inside one account does not keep the level computation from
  returning: in \<open>cyclicStore\<close> Alice and Bob report to each other and both get level 2.
\<close>

lemma cyclicStore_contacts: "getAccountContacts cyclicStore ''acme'' = [alice, bob]"
  by (simp add: getAccountContacts_def cyclicStore_def alice_def bob_def acme_def
      alice_works_at_acme_def bob_works_at_acme_def bob_reports_to_alice_def
      alice_reports_to_bob_def del: set_filter)

lemma cyclicStore_orgEdges:
  "orgEdges cyclicStore [alice, bob] = [bob_reports_to_alice, alice_reports_to_bob]"
  by (simp add: orgEdges_def cyclicStore_def alice_def bob_def
      alice_works_at_acme_def bob_works_at_acme_def bob_reports_to_alice_def
      alice_reports_to_bob_def)

lemma cyclicStore_hierarchy:
  "applyOrgEdges [bob_reports_to_alice, alice_reports_to_bob] (initHierarchy [alice, bob])
     = Inr cyclicHierarchy"
  by (simp add: initHierarchy_def applyOrgEdge_def Let_def cyclicHierarchy_def
      bob_reports_to_alice_def alice_reports_to_bob_def)
     (simp add: alice_def bob_def)

lemma cyclicStore_levels:
  "calculateLevels cyclicHierarchy ''alice'' {} = Inr 2"
  "calculateLevels cyclicHierarchy ''bob'' {} = Inr 2"
  by (simp_all add: calculateLevels.simps cyclicHierarchy_def)

lemma getOrgChart_cyclicStore:
  "\<exists>h'. getOrgChart cyclicStore ''acme'' = Inr h' \<and> map fst h' = [''alice'', ''bob''] \<and>
      map (level \<circ> snd) h' = [2, 2]"
proof -
  have h0: "applyOrgEdges (orgEdges cyclicStore (getAccountContacts cyclicStore ''acme''))
     (initHierarchy (getAccountContacts cyclicStore ''acme'')) = Inr cyclicHierarchy"
    by (simp only: cyclicStore_contacts cyclicStore_orgEdges cyclicStore_hierarchy)
  from getOrgChart_levels[OF h0]
  obtain h' where h': "getOrgChart cyclicStore ''acme'' = Inr h'"
    "map fst h' = [''alice'', ''bob'']"
    "\<forall>(k, entry) \<in> set h'. calculateLevels cyclicHierarchy k {} = Inr (level entry)"
    by (auto simp: cyclicHierarchy_def)
  from h'(2) obtain a b where ab: "h' = [(''alice'', a), (''bob'', b)]"
    by (auto simp: map_eq_Cons_conv)
  have "level a = 2" "level b = 2"
    using h'(3) cyclicStore_levels by (auto simp: ab)
  then show ?thesis
    using h'(1,2) by (simp add: ab)
qed

text \<open>
  A reporting edge that leaves the account makes the loop over the edges read an
  entry the hierarchy does not have: Bob works at Acme and reports to Alice, who has no
  \<^verbatim>\<open>works_at\<close> edge to Acme.
\<close>

lemma getOrgChart_manager_outside_account:
  "getOrgChart
     \<lparr>nodes = [alice, bob, acme], edges = [bob_works_at_acme, bob_reports_to_alice],
      interactions = []\<rparr> ''acme'' = Inl TypeError"
  by (simp add: getOrgChart_def getAccountContacts_def orgEdges_def initHierarchy_def
      applyOrgEdge_def Let_def alice_def bob_def acme_def bob_works_at_acme_def
      bob_reports_to_alice_def del: set_filter)

lemma import_dana_eric:
  "loadFromHubSpot now [hsDana, hsEric] [] [hsAcme] \<lparr>nodes = [], edges = [], interactions = []\<rparr> =
     \<lparr>nodes = [contactNode hsDana, contactNode hsEric, companyNode hsAcme],
      edges =
        [\<lparr>edge_id = ''edge_hubspot_contact_5_reports_hubspot_contact_4'',
          source = ''hubspot_contact_5'', target = ''hubspot_contact_4'',
          edge_type = ''reports_to'', strength = fl 0.9, confirmed = True,
          metadata = Some \<lparr>em_lastInteraction = None, em_interactionCount = 0\<rparr>\<rparr>,
         \<lparr>edge_id = ''edge_hubspot_contact_5_works_at_hubspot_company_10'',
          source = ''hubspot_contact_5'', target = ''hubspot_company_10'',
          edge_type = ''works_at'', strength = 1.0, confirmed = True, metadata = None\<rparr>],
      interactions = []\<rparr>"
  by (simp add: loadFromHubSpot_def reportsToEdge_def worksAtEdge_def truthy_def orElse_def
      Let_def hsDana_def hsEric_def hsAcme_def)

text \<open>
  Claim C9. The claim has \<open>getOrgChart\<close> return for every input, with level 0 for every
  contact that has no resolvable manager. The level computation itself always returns
  (\<open>calculateLevels\<close> is total, \<open>getOrgChart_levels\<close>), also on a reporting cycle
  (\<open>getOrgChart_cyclicStore\<close>). The loop before it does not: it reads
  \<^verbatim>\<open>hierarchy[edge.target].manages\<close> for every reporting edge that touches a contact of the
  account, and the manager of such an edge need not be a contact of the account. The
  importer produces that store from two contacts: Eric works at Acme and reports to Dana,
  who has no company. The org chart of Acme is then no chart with Eric at level 0 but a
  \<^verbatim>\<open>TypeError\<close>.
\<close>

theorem orgChart_throws_for_manager_outside_account:
  "getAccountContacts
     (loadFromHubSpot now [hsDana, hsEric] [] [hsAcme] \<lparr>nodes = [], edges = [], interactions = []\<rparr>)
     ''hubspot_company_10'' = [contactNode hsEric] \<and>
   getOrgChart
     (loadFromHubSpot now [hsDana, hsEric] [] [hsAcme] \<lparr>nodes = [], edges = [], interactions = []\<rparr>)
     ''hubspot_company_10'' = Inl TypeError"
  unfolding import_dana_eric
  by (simp add: getOrgChart_def getAccountContacts_def orgEdges_def initHierarchy_def
      applyOrgEdge_def Let_def contactNode_def companyNode_def hsDana_def hsEric_def hsAcme_def
      del: set_filter)

section \<open>Referential integrity\<close>



















text \<open>The importer gives every edge a strength between 0 and 1.\<close>

lemma loadFromHubSpot_strengths:
  assumes "e \<in> set (edges (loadFromHubSpot now contacts deals companies s))"
  shows "0 \<le> strength e \<and> strength e \<le> 1"
proof -
  have r: "0 \<le> strength x \<and> strength x \<le> 1" if "x \<in> set (reportsToEdge now contacts c)" for x c
    using that unfolding reportsToEdge_def Let_def
    by (cases "find (\<lambda>m. Some (hc_id m) = orElse (hc_reportsTo c) (hc_managerId c) \<or>
          Some (hc_hubspotId m) = orElse (hc_reportsTo c) (hc_managerId c)) contacts";
        cases "truthy (orElse (hc_reportsTo c) (hc_managerId c))")
       (auto simp add: fl_literals simp del: find_None_iff find_None_iff2)
  have w: "0 \<le> strength x \<and> strength x \<le> 1" if "x \<in> set (worksAtEdge companies c)" for x c
    using that unfolding worksAtEdge_def
    by (cases "find (\<lambda>co. Some (co_hubspotId co) = hc_companyId c) companies";
        cases "truthy (hc_companyId c)")
       (auto simp del: find_None_iff find_None_iff2)
  have b: "0 \<le> strength x \<and> strength x \<le> 1" if "x \<in> set (belongsToEdge companies d)" for x d
    using that unfolding belongsToEdge_def
    by (cases "find (\<lambda>co. Some (co_hubspotId co) = hd_companyId d) companies";
        cases "truthy (hd_companyId d)")
       (auto simp del: find_None_iff find_None_iff2)
  have dc: "0 \<le> strength x \<and> strength x \<le> 1" if "x \<in> set (dealContactEdge contacts d q)"
    for x d q
    using that unfolding dealContactEdge_def Let_def
    by (cases "find (\<lambda>c. hc_hubspotId c = q) contacts")
       (auto simp add: fl_literals simp del: find_None_iff find_None_iff2)
  from assms consider
      c where "e \<in> set (reportsToEdge now contacts c)"
    | c where "e \<in> set (worksAtEdge companies c)"
    | d where "e \<in> set (belongsToEdge companies d)"
    | d q where "e \<in> set (dealContactEdge contacts d q)"
    by (auto simp: loadFromHubSpot_def)
  then show ?thesis
    using r w b dc by cases blast+
qed

section \<open>Strength invariant\<close>

text \<open>
  On a store whose strengths are all in [0, 1], \<open>trackInteraction\<close> keeps the edge list
  edge by edge, and every strength after the call is in [0, 1] and not below the strength
  before.
\<close>

lemma trackInteraction_strengths:
  assumes inv: "\<forall>e \<in> set (edges s). 0 \<le> strength e \<and> strength e \<le> 1"
  shows "list_all2
     (\<lambda>e e'. strength e \<le> strength e' \<and> 0 \<le> strength e' \<and> strength e' \<le> 1 \<and>
              edge_id e' = edge_id e \<and> source e' = source e \<and> target e' = target e \<and>
              edge_type e' = edge_type e)
     (edges s) (edges (snd (trackInteraction now s cid t md)))"
  unfolding edges_trackInteraction list_all2_map_same
proof
  fix e
  assume "e \<in> set (edges s)"
  then have r: "0 \<le> strength e" "strength e \<le> 1"
    using inv by blast+
  show "strength e \<le> strength (if touches cid e then strengthen now t md e else e) \<and>
      0 \<le> strength (if touches cid e then strengthen now t md e else e) \<and>
      strength (if touches cid e then strengthen now t md e else e) \<le> 1 \<and>
      edge_id (if touches cid e then strengthen now t md e else e) = edge_id e \<and>
      source (if touches cid e then strengthen now t md e else e) = source e \<and>
      target (if touches cid e then strengthen now t md e else e) = target e \<and>
      edge_type (if touches cid e then strengthen now t md e else e) = edge_type e"
    using r strengthen_range[OF r, of now t md] strengthen_same[of now t md e]
    by (cases "touches cid e") simp_all
qed

lemma percentStore_enriched:
  "enrichWithLinkedIn True aliceHasProfile percentBackend
       \<lparr>nodes = [alice, bob], edges = [], interactions = []\<rparr> =
     \<lparr>nodes = [alice\<lparr>linkedin_verified := True\<rparr>, bob],
      edges = [suggestedEdge (normalizeRelationship percentRelationship)],
      interactions = []\<rparr>"
  by (simp add: enrichWithLinkedIn_def enrichTurn_def enrichContact_def mergeLinkedInData_def
      getRelationshipSuggestions_def addSuggestedEdge_def joined_def
      aliceHasProfile_def percentBackend_def aliceProfile_def alice_def bob_def orElse_def
      truthy_def Let_def)

lemma email_from_85:
  "min (dadd 85 (increase ''email'' completedMeeting)) 1 = 1"
  by (simp add: increase_def Let_def notFalse_def completedMeeting_def increments dadd_def)
     (simp add: fl_def binade_def bitlen_nat.simps twoTo_def roundHalfEven_def Let_def)

text \<open>
  Claim C2. The claim holds for the edges of the importer (\<open>loadFromHubSpot_strengths\<close>)
  and for \<open>trackInteraction\<close> on strengths in [0, 1] (\<open>trackInteraction_strengths\<close>), where
  \<^verbatim>\<open>Math.min(edge.strength + increase, 1.0)\<close> keeps the cap. The enrichment has no such
  cap: it stores \<^verbatim>\<open>rel.confidence || rel.strength || 0.5\<close> as the backend sent it. A
  backend that reports the confidence in percent -- a connection of Alice and Bob with
  \<^verbatim>\<open>confidence: 85\<close> -- leaves an edge of strength 85 in the store, and the next
  completed email with Alice lowers that strength to 1.
\<close>

theorem enrichment_stores_strength_85:
  "map strength (edges (enrichWithLinkedIn True aliceHasProfile percentBackend
       \<lparr>nodes = [alice, bob], edges = [], interactions = []\<rparr>)) = [85] \<and>
   map strength (edges (snd (trackInteraction 0
       (enrichWithLinkedIn True aliceHasProfile percentBackend
          \<lparr>nodes = [alice, bob], edges = [], interactions = []\<rparr>)
       ''alice'' ''email'' completedMeeting))) = [1]"
  unfolding percentStore_enriched edges_trackInteraction
  by (simp add: suggestedEdge_def normalizeRelationship_def percentRelationship_def numOr_def
      determineRelationshipType_def touches_def strengthen_def email_from_85)

section \<open>Hot leads\<close>

lemma hasMomentum_detectMomentum:
  "hasMomentum (detectMomentum now t acts) \<longleftrightarrow>
     emailOpens (detectMomentum now t acts) > 2 \<or>
     emailClicks (detectMomentum now t acts) > 0 \<or>
     pricingClicks (detectMomentum now t acts) > 1 \<or>
     proposalOpens (detectMomentum now t acts) > 0 \<or>
     meetingAccepted (detectMomentum now t acts)"
  by (simp add: detectMomentum_def Let_def)

lemma hotLeadFor_signal:
  "l \<in> set (hotLeadFor d m st gh) \<Longrightarrow>
   hl_deal_id l = deal_id d \<and> hasMomentum m \<and>
   (proposalOpens m > 0 \<or> pricingClicks m > 0 \<or> emailOpens m > 2)"
  by (cases "hasMomentum m"; cases "proposalOpens m > 0"; cases "pricingClicks m > 0";
      cases "emailOpens m > 2")
     (auto simp: hotLeadFor_def signalReason_def)

lemma hotLeadFor_none:
  "proposalOpens m = 0 \<Longrightarrow> pricingClicks m = 0 \<Longrightarrow> emailOpens m \<le> 2 \<Longrightarrow>
   hotLeadFor d m st gh = []"
  by (simp add: hotLeadFor_def signalReason_def)

lemma generateSmartActions_no_signal:
  "proposalOpens m = 0 \<Longrightarrow> pricingClicks m = 0 \<Longrightarrow> emailOpens m \<le> 2 \<Longrightarrow>
   generateSmartActions now d acts m st gh =
   generateSmartActions now d acts (m\<lparr>hasMomentum := False\<rparr>) st gh"
  by (simp add: generateSmartActions_def Let_def)

lemma calculateUrgencyScore_base:
  "calculateUrgencyScore d m st gh =
   min (max (Math_round
     (urgencyBase d st gh +
      (if hasMomentum m
       then real (emailOpens m) * 0.5 + real (pricingClicks m) * 1 + real (proposalOpens m) * 1.5
       else 0))) 1) 10"
  by (cases "hasMomentum m"; cases "isStalling st"; cases "isGhosting gh";
      cases "deal_value d > 200000")
     (simp_all add: calculateUrgencyScore_def urgencyBase_def Let_def ac_simps)

lemma hot_leads_analyze:
  assumes "l \<in> set (hot_leads (analyze now deals dealActivities allActivities telemetryOf))"
  shows "\<exists>d \<in> set deals. stage d \<noteq> Some ''closed'' \<and> deal_id d = hl_deal_id l \<and>
    l \<in> set (hotLeadFor d
      (detectMomentum now (telemetryOf (deal_id d))
         (getDealActivities dealActivities allActivities (deal_id d)))
      (detectStalling now d)
      (detectGhosting now d (getDealActivities dealActivities allActivities (deal_id d))))"
proof -
  from assms have "l \<in> set (concat (map (\<lambda>d. hotLeadFor d
      (detectMomentum now (telemetryOf (deal_id d))
         (getDealActivities dealActivities allActivities (deal_id d)))
      (detectStalling now d)
      (detectGhosting now d (getDealActivities dealActivities allActivities (deal_id d))))
      (filter (\<lambda>d. stage d \<noteq> Some ''closed'') deals)))"
    by (auto simp: analyze_def Let_def dest!: in_set_takeD)
  then obtain d where d: "d \<in> set deals" "stage d \<noteq> Some ''closed''"
    "l \<in> set (hotLeadFor d
      (detectMomentum now (telemetryOf (deal_id d))
         (getDealActivities dealActivities allActivities (deal_id d)))
      (detectStalling now d)
      (detectGhosting now d (getDealActivities dealActivities allActivities (deal_id d))))"
    by auto
  then show ?thesis
    using hotLeadFor_signal[OF d(3)] by auto
qed

text \<open>
  Claim C10, as the code has it. Every entry of \<open>hot_leads\<close> belongs to an open deal whose
  momentum of the last 24 hours has proposal opens > 0, or pricing clicks > 0, or
  email opens > 2. A deal with none of the three (its momentum, if any, comes from an
  email click or a meeting acceptance) gets no hot lead and no action from the momentum
  branch of \<open>generateSmartActions\<close>; its urgency score has the momentum boost of 0.5 per
  email open only, so with no email open the score is the one without momentum.
\<close>

theorem hot_leads_need_open_signal:
  "(\<forall>l \<in> set (hot_leads (analyze now deals dealActivities allActivities telemetryOf)).
      \<exists>d \<in> set deals. stage d \<noteq> Some ''closed'' \<and> deal_id d = hl_deal_id l \<and>
        (let m = detectMomentum now (telemetryOf (deal_id d))
                   (getDealActivities dealActivities allActivities (deal_id d))
         in hasMomentum m \<and>
            (proposalOpens m > 0 \<or> pricingClicks m > 0 \<or> emailOpens m > 2))) \<and>
   (proposalOpens m = 0 \<and> pricingClicks m = 0 \<and> emailOpens m \<le> 2 \<longrightarrow>
      hotLeadFor d m st gh = [] \<and>
      generateSmartActions now d acts m st gh =
        generateSmartActions now d acts (m\<lparr>hasMomentum := False\<rparr>) st gh \<and>
      calculateUrgencyScore d m st gh =
        min (max (Math_round (urgencyBase d st gh +
                    (if hasMomentum m then real (emailOpens m) * 0.5 else 0))) 1) 10 \<and>
      (emailOpens m = 0 \<longrightarrow>
         calculateUrgencyScore d m st gh =
           calculateUrgencyScore d (m\<lparr>hasMomentum := False\<rparr>) st gh))"
proof (rule conjI)
  show "\<forall>l \<in> set (hot_leads (analyze now deals dealActivities allActivities telemetryOf)).
      \<exists>d \<in> set deals. stage d \<noteq> Some ''closed'' \<and> deal_id d = hl_deal_id l \<and>
        (let m = detectMomentum now (telemetryOf (deal_id d))
                   (getDealActivities dealActivities allActivities (deal_id d))
         in hasMomentum m \<and>
            (proposalOpens m > 0 \<or> pricingClicks m > 0 \<or> emailOpens m > 2))"
  proof
    fix l
    assume "l \<in> set (hot_leads (analyze now deals dealActivities allActivities telemetryOf))"
    from hot_leads_analyze[OF this] obtain d' where d': "d' \<in> set deals"
      "stage d' \<noteq> Some ''closed''" "deal_id d' = hl_deal_id l"
      "l \<in> set (hotLeadFor d'
        (detectMomentum now (telemetryOf (deal_id d'))
           (getDealActivities dealActivities allActivities (deal_id d')))
        (detectStalling now d')
        (detectGhosting now d' (getDealActivities dealActivities allActivities (deal_id d'))))"
      by blast
    show "\<exists>d \<in> set deals. stage d \<noteq> Some ''closed'' \<and> deal_id d = hl_deal_id l \<and>
        (let m = detectMomentum now (telemetryOf (deal_id d))
                   (getDealActivities dealActivities allActivities (deal_id d))
         in hasMomentum m \<and>
            (proposalOpens m > 0 \<or> pricingClicks m > 0 \<or> emailOpens m > 2))"
      using d'(1-3) hotLeadFor_signal[OF d'(4)] unfolding Let_def by blast
  qed
next
  show "proposalOpens m = 0 \<and> pricingClicks m = 0 \<and> emailOpens m \<le> 2 \<longrightarrow>
      hotLeadFor d m st gh = [] \<and>
      generateSmartActions now d acts m st gh =
        generateSmartActions now d acts (m\<lparr>hasMomentum := False\<rparr>) st gh \<and>
      calculateUrgencyScore d m st gh =
        min (max (Math_round (urgencyBase d st gh +
                    (if hasMomentum m then real (emailOpens m) * 0.5 else 0))) 1) 10 \<and>
      (emailOpens m = 0 \<longrightarrow>
         calculateUrgencyScore d m st gh =
           calculateUrgencyScore d (m\<lparr>hasMomentum := False\<rparr>) st gh)"
    using hotLeadFor_none[of m d st gh] generateSmartActions_no_signal[of m now d acts st gh]
    by (simp add: calculateUrgencyScore_base)
qed

lemma detectMomentum_emailClick:
  "detectMomentum (100 * msPerDay + 3600000) None [emailClick] = clickMomentum"
  by (simp add: detectMomentum_def Let_def emailClick_def clickMomentum_def recent_def
      countOr_def msPerDay_def orEmpty_def orElseStr_def toLowerCase_def toLowerChar_def)

text \<open>
  Against claim C10 as stated: a deal whose only recent activity is one email click
  (not on a pricing link) has momentum and gets no hot lead, and that momentum changes
  neither its urgency score nor its smart actions: both are what they are with
  \<open>hasMomentum\<close> false.
\<close>

theorem click_momentum_raises_nothing:
  "detectMomentum (100 * msPerDay + 3600000) None
     (getDealActivities (\<lambda>i. []) [emailClick] (deal_id clickedDeal)) = clickMomentum \<and>
   hasMomentum clickMomentum \<and>
   hot_leads (analyze (100 * msPerDay + 3600000) [clickedDeal] (\<lambda>i. []) [emailClick]
     (\<lambda>i. None)) = [] \<and>
   calculateUrgencyScore clickedDeal clickMomentum
       (detectStalling (100 * msPerDay + 3600000) clickedDeal)
       (detectGhosting (100 * msPerDay + 3600000) clickedDeal [emailClick]) =
     calculateUrgencyScore clickedDeal (clickMomentum\<lparr>hasMomentum := False\<rparr>)
       (detectStalling (100 * msPerDay + 3600000) clickedDeal)
       (detectGhosting (100 * msPerDay + 3600000) clickedDeal [emailClick]) \<and>
   generateSmartActions (100 * msPerDay + 3600000) clickedDeal [emailClick] clickMomentum
       (detectStalling (100 * msPerDay + 3600000) clickedDeal)
       (detectGhosting (100 * msPerDay + 3600000) clickedDeal [emailClick]) =
     generateSmartActions (100 * msPerDay + 3600000) clickedDeal [emailClick]
       (clickMomentum\<lparr>hasMomentum := False\<rparr>)
       (detectStalling (100 * msPerDay + 3600000) clickedDeal)
       (detectGhosting (100 * msPerDay + 3600000) clickedDeal [emailClick])"
proof -
  have acts: "getDealActivities (\<lambda>i. []) [emailClick] (deal_id clickedDeal) = [emailClick]"
    by (simp add: getDealActivities_def emailClick_def clickedDeal_def)
  have m: "detectMomentum (100 * msPerDay + 3600000) None
      (getDealActivities (\<lambda>i. []) [emailClick] (deal_id clickedDeal)) = clickMomentum"
    by (simp only: acts detectMomentum_emailClick)
  have signal: "signalReason clickMomentum = None"
    by (simp add: signalReason_def clickMomentum_def)
  have hot: "hot_leads (analyze (100 * msPerDay + 3600000) [clickedDeal] (\<lambda>i. []) [emailClick]
      (\<lambda>i. None)) = []"
  proof -
    have open_deal: "stage clickedDeal \<noteq> Some ''closed''"
      by (simp add: clickedDeal_def)
    show ?thesis
      using open_deal by (simp add: analyze_def Let_def m hotLeadFor_def signal)
  qed
  have u: "calculateUrgencyScore clickedDeal clickMomentum st gh =
      calculateUrgencyScore clickedDeal (clickMomentum\<lparr>hasMomentum := False\<rparr>) st gh" for st gh
    by (simp add: calculateUrgencyScore_base clickMomentum_def)
  have a: "generateSmartActions now clickedDeal acts' clickMomentum st gh =
      generateSmartActions now clickedDeal acts' (clickMomentum\<lparr>hasMomentum := False\<rparr>) st gh"
    for now acts' st gh
    by (rule generateSmartActions_no_signal) (simp_all add: clickMomentum_def)
  have "hasMomentum clickMomentum" by (simp add: clickMomentum_def)
  then show ?thesis
    using m hot u a by simp
qed

theorem hot_leads_need_open_signal_witness:
  "proposalOpens clickMomentum = 0 \<and> pricingClicks clickMomentum = 0 \<and>
   emailOpens clickMomentum \<le> 2 \<and> emailOpens clickMomentum = 0 \<and>
   hotLeadFor clickedDeal clickMomentum
       (detectStalling (100 * msPerDay + 3600000) clickedDeal)
       (detectGhosting (100 * msPerDay + 3600000) clickedDeal [emailClick]) = [] \<and>
   calculateUrgencyScore clickedDeal clickMomentum
       (detectStalling (100 * msPerDay + 3600000) clickedDeal)
       (detectGhosting (100 * msPerDay + 3600000) clickedDeal [emailClick]) =
     calculateUrgencyScore clickedDeal (clickMomentum\<lparr>hasMomentum := False\<rparr>)
       (detectStalling (100 * msPerDay + 3600000) clickedDeal)
       (detectGhosting (100 * msPerDay + 3600000) clickedDeal [emailClick]) \<and>
   hl_deal_id ` set (hot_leads (analyze (100 * msPerDay + 3600000) [clickedDeal] (\<lambda>i. [])
        [emailClick] (\<lambda>i. None))) \<subseteq> {''deal_7''}"
proof -
  have h: "proposalOpens clickMomentum = 0" "pricingClicks clickMomentum = 0"
    "emailOpens clickMomentum \<le> 2" "emailOpens clickMomentum = 0"
    by (simp_all add: clickMomentum_def)
  from hot_leads_need_open_signal
    [of "100 * msPerDay + 3600000" "[clickedDeal]" "\<lambda>i. []" "[emailClick]" "\<lambda>i. None"
      clickMomentum clickedDeal "detectStalling (100 * msPerDay + 3600000) clickedDeal"
      "detectGhosting (100 * msPerDay + 3600000) clickedDeal [emailClick]" "[emailClick]"]
  show ?thesis
    using h by (auto simp: clickedDeal_def)
qed

end
